theory Spec2Isabelle
  imports Main "HOL-Library.Multiset"
begin

section \<open>Python values, strings and errors\<close>

text \<open>
  The notebook is Python. A \<open>str\<close> is modelled as a \<^typ>\<open>string\<close>, one \<^typ>\<open>char\<close> per
  code point (code points below 256); an \<open>int\<close> is an unbounded \<^typ>\<open>int\<close>. An exception
  is a value of type \<open>error\<close>, and a function that may raise returns \<open>error + 'a\<close>.
\<close>

datatype error =
    ValueError string
  | TableNotFound string
  | CollaboratorError string

text \<open>
  The value of the \<open>accuracy_metric\<close> output field: the language model returns text, but
  \<open>normalize_metric\<close> tests the dynamic type, so the model keeps the tag.
\<close>

datatype pyval = PyStr string | PyInt int | PyNone

definition sep_space :: string where
  "sep_space = '' ''"

definition context_sep :: string where
  "context_sep = ''- context block: ''"

text \<open>\<open>sep.join(xs)\<close>.\<close>

fun join :: "string \<Rightarrow> string list \<Rightarrow> string" where
  "join sep [] = []"
| "join sep [x] = x"
| "join sep (x # y # ys) = x @ sep @ join sep (y # ys)"

section \<open>EvaluatorRAG.normalize\_metric\<close>

text \<open>
  \<^verbatim>\<open>
  def normalize_metric(self, metric):
      if isinstance(metric, str):
          match = re.search(r'\d+', metric)
          if match:
              return int(match.group())
      return metric
  \<close>
  Among the code points below 256 the class \<open>\d\<close> holds the ten ASCII digits only.
\<close>

definition is_digit :: "char \<Rightarrow> bool" where
  "is_digit c \<longleftrightarrow> 48 \<le> (of_char c :: nat) \<and> (of_char c :: nat) \<le> 57"

definition digit_val :: "char \<Rightarrow> int" where
  "digit_val c = int (of_char c) - 48"

text \<open>\<open>re.search(r'\d+', s)\<close>: the leftmost match, extended greedily; \<open>None\<close> when no digit occurs.\<close>

definition re_search_digits :: "string \<Rightarrow> string option" where
  "re_search_digits s =
     (let rest = dropWhile (\<lambda>c. \<not> is_digit c) s
      in if rest = [] then None else Some (takeWhile is_digit rest))"

text \<open>
  \<open>int(ds)\<close> on a run of decimal digits. The value is the run read in base ten. The
  conversion counts the digits of the run, leading zeros included, and raises a
  \<open>ValueError\<close> when there are more than 4300 of them (the default of
  \<open>sys.get_int_max_str_digits()\<close>). The message is abridged: its wording varies with the
  Python version and it also tells the count.
\<close>

definition int_of_digits :: "string \<Rightarrow> int" where
  "int_of_digits ds = foldl (\<lambda>acc c. 10 * acc + digit_val c) 0 ds"

definition int_max_str_digits :: nat where
  "int_max_str_digits = 4300"

definition digit_limit_exceeded :: error where
  "digit_limit_exceeded =
     ValueError ''Exceeds the limit (4300 digits) for integer string conversion''"

definition py_int :: "string \<Rightarrow> error + int" where
  "py_int ds =
     (if int_max_str_digits < length ds then Inl digit_limit_exceeded
      else Inr (int_of_digits ds))"

fun normalize_metric :: "pyval \<Rightarrow> error + pyval" where
  "normalize_metric (PyStr s) =
     (case re_search_digits s of
        Some g \<Rightarrow> (case py_int g of Inl e \<Rightarrow> Inl e | Inr n \<Rightarrow> Inr (PyInt n))
      | None \<Rightarrow> Inr (PyStr s))"
| "normalize_metric m = Inr m"

section \<open>Vectorstore: the chunker\<close>

text \<open>
  The fields of a \<open>Vectorstore\<close> that the code reads back. The connection \<open>self.db\<close> is
  the database stored at \<open>db_path\<close>; its state is passed explicitly.
\<close>

record vectorstore =
  context_information :: string
  db_path :: string
  tablename :: string
  chunk_size :: int

definition is_space :: "char \<Rightarrow> bool" where
  "is_space c \<longleftrightarrow>
     (let n = (of_char c :: nat)
      in (9 \<le> n \<and> n \<le> 13) \<or> (28 \<le> n \<and> n \<le> 32) \<or> n = 133 \<or> n = 160)"

fun split_acc :: "string \<Rightarrow> string \<Rightarrow> string list" where
  "split_acc [] w = (if w = [] then [] else [w])"
| "split_acc (c # cs) w =
     (if is_space c then (if w = [] then split_acc cs [] else w # split_acc cs [])
      else split_acc cs (w @ [c]))"

definition split_ws :: "string \<Rightarrow> string list" where
  "split_ws s = split_acc s []"

text \<open>A word: a non-empty string without whitespace.\<close>

definition is_word :: "string \<Rightarrow> bool" where
  "is_word w \<longleftrightarrow> w \<noteq> [] \<and> (\<forall>c \<in> set w. \<not> is_space c)"

function range_from :: "int \<Rightarrow> int \<Rightarrow> int \<Rightarrow> int list" where
  "range_from i stop step =
     (if (0 < step \<and> i < stop) \<or> (step < 0 \<and> stop < i)
      then i # range_from (i + step) stop step else [])"
  by pat_completeness auto
termination
  by (relation "measure (\<lambda>(i, stop, step). nat (if 0 < step then stop - i else i - stop))") auto

declare range_from.simps [simp del]

definition py_range :: "int \<Rightarrow> int \<Rightarrow> int \<Rightarrow> error + int list" where
  "py_range start stop step =
     (if step = 0 then Inl (ValueError ''range() arg 3 must not be zero'')
      else Inr (range_from start stop step))"

definition slice_idx :: "int \<Rightarrow> int \<Rightarrow> nat" where
  "slice_idx n k = nat (if k < 0 then max 0 (n + k) else min n k)"

definition slice :: "'a list \<Rightarrow> int \<Rightarrow> int \<Rightarrow> 'a list" where
  "slice xs i j =
     (let n = int (length xs); a = slice_idx n i; b = slice_idx n j
      in take (b - a) (drop a xs))"

definition split_text_into_chunks :: "vectorstore \<Rightarrow> error + string list" where
  "split_text_into_chunks vs =
     (let words = split_ws (context_information vs)
      in case py_range 0 (int (length words)) (chunk_size vs) of
           Inl e \<Rightarrow> Inl e
         | Inr starts \<Rightarrow>
             Inr (map (\<lambda>i. join sep_space (slice words i (i + chunk_size vs))) starts))"

section \<open>Vectorstore: the index store\<close>

text \<open>
  A row of the table is a passage text with its embedding vector; the vector is computed by
  the embedding collaborator, an opaque function from text to vector. A table also records
  whether its full-text index over \<open>text\<close> has been built. A database maps table names
  to tables, and the storage maps a location to the database kept there.
\<close>

record 'v row =
  row_text :: string
  row_vector :: 'v

record 'v table =
  rows :: "'v row list"
  fts_index :: bool

type_synonym 'v database = "string \<rightharpoonup> 'v table"

type_synonym 'v storage = "string \<Rightarrow> 'v database"

text \<open>\<open>re.sub(r'\s+', ' ', text)\<close>: every maximal run of whitespace becomes one blank.\<close>

function re_sub_ws :: "string \<Rightarrow> string" where
  "re_sub_ws [] = []"
| "re_sub_ws (c # cs) =
     (if is_space c then CHR '' '' # re_sub_ws (dropWhile is_space cs)
      else c # re_sub_ws cs)"
  by pat_completeness auto
termination
  by (relation "measure length") (simp_all add: le_imp_less_Suc length_dropWhile_le)

text \<open>
  \<^verbatim>\<open>
  def _persist_on_db(self):
      if self.tablename not in self.db.table_names():
          tbl = self.db.create_table(self.tablename, schema=Schema, mode="overwrite")
          contexts = [{"text": re.sub(r'\s+', ' ', text)} for text in self.split_text_into_chunks()]
          tbl.add(contexts)
      else:
          tbl = self.db.open_table(self.tablename)
      tbl.create_fts_index("text", replace=True)
  \<close>
  The function returns the database it leaves behind and the exception raised, if any:
  the empty table is created before the text is split, so it is there when the split raises.
\<close>

definition create_table :: "'v database \<Rightarrow> string \<Rightarrow> 'v database" where
  "create_table db name = db(name \<mapsto> \<lparr>rows = [], fts_index = False\<rparr>)"

definition add_rows :: "(string \<Rightarrow> 'v) \<Rightarrow> 'v database \<Rightarrow> string \<Rightarrow> string list \<Rightarrow> 'v database" where
  "add_rows embed_model db name texts =
     (case db name of
        None \<Rightarrow> db
      | Some tbl \<Rightarrow>
          db(name \<mapsto> tbl\<lparr>rows := rows tbl @ map (\<lambda>t. \<lparr>row_text = t, row_vector = embed_model t\<rparr>) texts\<rparr>))"

definition create_fts_index :: "'v database \<Rightarrow> string \<Rightarrow> 'v database" where
  "create_fts_index db name =
     (case db name of
        None \<Rightarrow> db
      | Some tbl \<Rightarrow> db(name \<mapsto> tbl\<lparr>fts_index := True\<rparr>))"

definition persist_on_db ::
  "(string \<Rightarrow> 'v) \<Rightarrow> vectorstore \<Rightarrow> 'v database \<Rightarrow> 'v database \<times> error option" where
  "persist_on_db embed_model vs db =
     (case db (tablename vs) of
        None \<Rightarrow>
          (let db1 = create_table db (tablename vs)
           in case split_text_into_chunks vs of
                Inl e \<Rightarrow> (db1, Some e)
              | Inr chunks \<Rightarrow>
                  (let contexts = map re_sub_ws chunks;
                       db2 = add_rows embed_model db1 (tablename vs) contexts
                   in (create_fts_index db2 (tablename vs), None)))
      | Some tbl \<Rightarrow> (create_fts_index db (tablename vs), None))"

text \<open>
  \<^verbatim>\<open>
  def __init__(self, context_information=None, db_path=None, tablename='context', chunk_size=50):
      if context_information is None or db_path is None:
          raise ValueError("Both context_information and db_path must be provided")
      self.context_information = context_information
      self.db_path = db_path
      self.tablename = tablename
      self.chunk_size = chunk_size
      ...
      self.db = lancedb.connect(self.db_path)
      self._persist_on_db()
  \<close>
  An argument that is \<open>None\<close> is \<^const>\<open>None\<close>. The constructor returns the storage it
  leaves behind and either the exception or the new instance.
\<close>

definition missing_argument :: error where
  "missing_argument = ValueError ''Both context_information and db_path must be provided''"

definition Vectorstore_init ::
  "(string \<Rightarrow> 'v) \<Rightarrow> string option \<Rightarrow> string option \<Rightarrow> string \<Rightarrow> int \<Rightarrow> 'v storage
   \<Rightarrow> 'v storage \<times> (error + vectorstore)" where
  "Vectorstore_init embed_model context_information' db_path' tablename' chunk_size' st =
     (case (context_information', db_path') of
        (Some ci, Some p) \<Rightarrow>
          (let vs = \<lparr>context_information = ci, db_path = p, tablename = tablename',
                     chunk_size = chunk_size'\<rparr>
           in case persist_on_db embed_model vs (st p) of
                (db', Some e) \<Rightarrow> (st(p := db'), Inl e)
              | (db', None) \<Rightarrow> (st(p := db'), Inr vs))
      | _ \<Rightarrow> (st, Inl missing_argument))"

section \<open>Vectorstore: the retriever\<close>

text \<open>
  The collaborators (the hybrid search of the storage engine with its reranker, and the two
  language-model calls) are parameters. A call acts on the outside world, of an arbitrary
  type \<open>'w\<close>: it takes the world, and returns its outcome with the world it leaves behind.
\<close>

type_synonym ('w, 'a) effect = "'w \<Rightarrow> (error + 'a) \<times> 'w"

text \<open>
  \<^verbatim>\<open>
  def search_table(self, query_string, query_type='hybrid', top_k=3):
      print(...)
      reranker = LinearCombinationReranker(weight=0.7)
      tbl = self.db.open_table(self.tablename)
      rs = tbl.search(query_string, query_type=query_type).rerank(reranker=reranker).limit(top_k).to_list()
      return "- context block: ".join([item['text'] for item in rs])
  \<close>
  The line printed first is not modelled. The parameter \<open>search\<close> stands for the query of
  the storage engine: given the table, the query, the query type, the reranker weight and
  \<open>top_k\<close> it yields the ranked candidates, best first. \<open>limit(top_k)\<close> lets the first
  \<open>top_k\<close> of them through when \<open>top_k\<close> is positive; a \<open>top_k\<close> that is zero or negative
  removes the limit, as the storage engine documents it, and all candidates come through.
  The weight is the rational 7/10, given as numerator and denominator. Opening a table that
  does not exist raises.
\<close>

definition reranker_weight :: "nat \<times> nat" where
  "reranker_weight = (7, 10)"

definition limit :: "int \<Rightarrow> 'a list \<Rightarrow> 'a list" where
  "limit top_k xs = (if top_k \<le> 0 then xs else take (nat top_k) xs)"

definition search_table ::
  "('v table \<Rightarrow> string \<Rightarrow> string \<Rightarrow> nat \<times> nat \<Rightarrow> int
     \<Rightarrow> ('w, 'v row list) effect)
   \<Rightarrow> vectorstore \<Rightarrow> 'v database \<Rightarrow> string \<Rightarrow> string \<Rightarrow> int \<Rightarrow> ('w, string) effect" where
  "search_table search vs db query_string query_type top_k w =
     (case db (tablename vs) of
        None \<Rightarrow> (Inl (TableNotFound (tablename vs)), w)
      | Some tbl \<Rightarrow>
          (case search tbl query_string query_type reranker_weight top_k w of
             (Inl e, w') \<Rightarrow> (Inl e, w')
           | (Inr ranked, w') \<Rightarrow>
               (Inr (join context_sep (map row_text (limit top_k ranked))), w')))"

section \<open>RAG, EvaluatorRAG and RAG\_Assitant\<close>

record prediction =
  query :: string
  context_chunks :: string
  answer :: string
  answer_rationale :: string

record evaluation = prediction +
  accuracy_metric :: pyval
  rationale_metric :: string

record rag =
  vectorstore :: vectorstore

text \<open>
  \<^verbatim>\<open>
  def __init__(self, context_information, db_path):
      super().__init__()
      if context_information is None or db_path is None:
          raise ValueError("Both context_information and db_path must be provided")
      self.vectorstore = Vectorstore(context_information=context_information, db_path=db_path)
      self.generate_answer = dspy.ChainOfThought(GenerateAnswer)
  \<close>
\<close>

definition RAG_init ::
  "(string \<Rightarrow> 'v) \<Rightarrow> string option \<Rightarrow> string option \<Rightarrow> 'v storage
   \<Rightarrow> 'v storage \<times> (error + rag)" where
  "RAG_init embed_model context_information' db_path' st =
     (if context_information' = None \<or> db_path' = None then (st, Inl missing_argument)
      else case Vectorstore_init embed_model context_information' db_path' ''context'' 50 st of
             (st', Inl e) \<Rightarrow> (st', Inl e)
           | (st', Inr vs) \<Rightarrow> (st', Inr \<lparr>vectorstore = vs\<rparr>))"

text \<open>
  \<^verbatim>\<open>
  def forward(self, query):
      relevant_contexts = self.vectorstore.search_table(query_string=query, query_type='hybrid', top_k=3)
      prediction = self.generate_answer(query=query, context_chunks=relevant_contexts)
      return dspy.Prediction(query=query, context_chunks=relevant_contexts,
                             answer=prediction.answer, answer_rationale=prediction.answer_rationale)
  \<close>
  The parameter \<open>generate_answer\<close> is the language-model call; it yields the answer and its
  rationale.
\<close>

definition RAG_forward ::
  "('v table \<Rightarrow> string \<Rightarrow> string \<Rightarrow> nat \<times> nat \<Rightarrow> int
     \<Rightarrow> ('w, 'v row list) effect)
   \<Rightarrow> (string \<Rightarrow> string \<Rightarrow> ('w, string \<times> string) effect)
   \<Rightarrow> rag \<Rightarrow> 'v database \<Rightarrow> string \<Rightarrow> ('w, prediction) effect" where
  "RAG_forward search generate_answer self db query' w =
     (case search_table search (vectorstore self) db query' ''hybrid'' 3 w of
        (Inl e, w1) \<Rightarrow> (Inl e, w1)
      | (Inr relevant_contexts, w1) \<Rightarrow>
          (case generate_answer query' relevant_contexts w1 of
             (Inl e, w2) \<Rightarrow> (Inl e, w2)
           | (Inr (ans, rationale), w2) \<Rightarrow>
               (Inr \<lparr>query = query', context_chunks = relevant_contexts, answer = ans,
                     answer_rationale = rationale\<rparr>, w2)))"

text \<open>
  \<^verbatim>\<open>
  def forward(self, query, context_chunks, answer, answer_rationale):
      evaluation = self.evaluate_answer(query=query, context_chunks=context_chunks,
                                        answer=answer, answer_rationale=answer_rationale)
      accuracy_metric = self.normalize_metric(evaluation.accuracy_metric)
      return dspy.Prediction(query=query, context_chunks=context_chunks, answer=answer,
                             answer_rationale=answer_rationale, accuracy_metric=accuracy_metric,
                             rationale_metric=evaluation.rationale_metric)
  \<close>
  The parameter \<open>evaluate_answer\<close> is the second language-model call; it yields the raw
  accuracy metric and the rationale of the metric. An exception of \<open>normalize_metric\<close> leaves
  \<open>forward\<close> as it is raised.
\<close>

definition EvaluatorRAG_forward ::
  "(string \<Rightarrow> string \<Rightarrow> string \<Rightarrow> string \<Rightarrow> ('w, pyval \<times> string) effect)
   \<Rightarrow> string \<Rightarrow> string \<Rightarrow> string \<Rightarrow> string \<Rightarrow> ('w, evaluation) effect" where
  "EvaluatorRAG_forward evaluate_answer query' context_chunks' answer' answer_rationale' w =
     (case evaluate_answer query' context_chunks' answer' answer_rationale' w of
        (Inl e, w') \<Rightarrow> (Inl e, w')
      | (Inr (raw_metric, metric_rationale), w') \<Rightarrow>
          (case normalize_metric raw_metric of
             Inl e \<Rightarrow> (Inl e, w')
           | Inr accuracy_metric' \<Rightarrow>
               (Inr \<lparr>query = query', context_chunks = context_chunks', answer = answer',
                     answer_rationale = answer_rationale',
                     accuracy_metric = accuracy_metric',
                     rationale_metric = metric_rationale\<rparr>, w')))"

text \<open>
  \<^verbatim>\<open>
  def process_question(self, query):
      result = self.rag.forward(query)
      evaluation = self.evaluator_rag.forward(query=query, context_chunks=result.context_chunks,
                                              answer=result.answer,
                                              answer_rationale=result.answer_rationale)
      return {"query": evaluation.query, "context_chunks": evaluation.context_chunks,
              "answer": evaluation.answer, "answer_rationale": evaluation.answer_rationale,
              "accuracy_metric": evaluation.accuracy_metric,
              "rationale_metric": evaluation.rationale_metric}
  \<close>
  The dictionary returned has the six keys of an \<open>evaluation\<close> and is modelled as one.
\<close>

definition process_question ::
  "('v table \<Rightarrow> string \<Rightarrow> string \<Rightarrow> nat \<times> nat \<Rightarrow> int
     \<Rightarrow> ('w, 'v row list) effect)
   \<Rightarrow> (string \<Rightarrow> string \<Rightarrow> ('w, string \<times> string) effect)
   \<Rightarrow> (string \<Rightarrow> string \<Rightarrow> string \<Rightarrow> string \<Rightarrow> ('w, pyval \<times> string) effect)
   \<Rightarrow> rag \<Rightarrow> 'v database \<Rightarrow> string \<Rightarrow> ('w, evaluation) effect" where
  "process_question search generate_answer evaluate_answer self_rag db query' w =
     (case RAG_forward search generate_answer self_rag db query' w of
        (Inl e, w1) \<Rightarrow> (Inl e, w1)
      | (Inr result, w1) \<Rightarrow>
          (case EvaluatorRAG_forward evaluate_answer query' (context_chunks result)
                  (answer result) (answer_rationale result) w1 of
             (Inl e, w2) \<Rightarrow> (Inl e, w2)
           | (Inr ev, w2) \<Rightarrow>
               (Inr \<lparr>query = query ev, context_chunks = context_chunks ev,
                     answer = answer ev, answer_rationale = answer_rationale ev,
                     accuracy_metric = accuracy_metric ev,
                     rationale_metric = rationale_metric ev\<rparr>, w2)))"

text \<open>
  To observe which collaborator is called, with what and in which order, the world can be
  taken to be the list of calls made so far: a recording collaborator appends its call and
  returns the outcome that a given function assigns to its arguments.
\<close>

datatype call =
    Search string string
  | Generate string string
  | Evaluate string string string string

definition recording_search ::
  "(string \<Rightarrow> error + 'v row list) \<Rightarrow> 'v table \<Rightarrow> string \<Rightarrow> string \<Rightarrow> nat \<times> nat \<Rightarrow> int
   \<Rightarrow> (call list, 'v row list) effect" where
  "recording_search outcome tbl q qt wt k w = (outcome q, w @ [Search q qt])"

definition recording_generate ::
  "(string \<Rightarrow> string \<Rightarrow> error + string \<times> string) \<Rightarrow> string \<Rightarrow> string
   \<Rightarrow> (call list, string \<times> string) effect" where
  "recording_generate outcome q c w = (outcome q c, w @ [Generate q c])"

definition recording_evaluate ::
  "(string \<Rightarrow> string \<Rightarrow> string \<Rightarrow> string \<Rightarrow> error + pyval \<times> string)
   \<Rightarrow> string \<Rightarrow> string \<Rightarrow> string \<Rightarrow> string \<Rightarrow> (call list, pyval \<times> string) effect" where
  "recording_evaluate outcome q c a r w = (outcome q c a r, w @ [Evaluate q c a r])"

section \<open>Properties of the normalization\<close>

lemma re_search_digits_none:
  "(\<forall>c \<in> set s. \<not> is_digit c) \<Longrightarrow> re_search_digits s = None"
  by (simp add: re_search_digits_def)

lemma re_search_digits_run:
  assumes pre: "\<forall>c \<in> set pre. \<not> is_digit c"
    and ds: "ds \<noteq> []" "\<forall>c \<in> set ds. is_digit c"
    and post: "post = [] \<or> \<not> is_digit (hd post)"
  shows "re_search_digits (pre @ ds @ post) = Some ds"
proof -
  have d: "dropWhile (\<lambda>c. \<not> is_digit c) (pre @ ds @ post) = ds @ post"
    using pre ds by (cases ds) (simp_all add: dropWhile_append3)
  have t: "takeWhile is_digit (ds @ post) = ds"
    using ds post by (cases post) (simp_all add: takeWhile_tail)
  show ?thesis
    using ds by (simp add: re_search_digits_def d t)
qed

lemma int_of_digits_snoc:
  "int_of_digits (ds @ [c]) = 10 * int_of_digits ds + digit_val c"
  by (simp add: int_of_digits_def)

lemma normalize_metric_run:
  assumes "\<forall>c \<in> set pre. \<not> is_digit c" "ds \<noteq> []" "\<forall>c \<in> set ds. is_digit c"
    and "post = [] \<or> \<not> is_digit (hd post)"
  shows "normalize_metric (PyStr (pre @ ds @ post)) =
           (if 4300 < length ds then Inl digit_limit_exceeded else Inr (PyInt (int_of_digits ds)))"
  using re_search_digits_run [OF assms]
  by (simp add: py_int_def int_max_str_digits_def)

lemma normalize_metric_nines:
  "normalize_metric (PyStr (replicate 4301 CHR ''9'')) = Inl digit_limit_exceeded"
proof -
  have "normalize_metric (PyStr ([] @ replicate 4301 CHR ''9'' @ [])) =
          (if 4300 < length (replicate 4301 CHR ''9'') then Inl digit_limit_exceeded
           else Inr (PyInt (int_of_digits (replicate 4301 CHR ''9''))))"
    by (rule normalize_metric_run) (simp_all add: is_digit_def)
  then show ?thesis by simp
qed

lemma normalize_metric_fixed:
  "normalize_metric m = Inr v \<Longrightarrow> normalize_metric v = Inr v"
proof (cases m)
  case (PyStr s)
  assume r: "normalize_metric m = Inr v"
  show ?thesis
  proof (cases "re_search_digits s")
    case None
    then show ?thesis using r PyStr by auto
  next
    case (Some g)
    then show ?thesis using r PyStr by (cases "py_int g") auto
  qed
qed auto

text \<open>
  Claim C1, as amended. A metric that is not a string (a number, or no value) is returned as
  it is. A string metric without a decimal digit is returned as it is. For a string metric
  \<open>pre @ ds @ post\<close>, where \<open>pre\<close> holds no digit, \<open>ds\<close> is a non-empty run of digits and
  \<open>post\<close> does not start with a digit: when \<open>ds\<close> has at most 4300 digits the result is the
  integer that \<open>ds\<close> denotes, with no clamping to the range 0 to 10 and no check of the
  range; when \<open>ds\<close> has more than 4300 digits the normalization raises the \<open>ValueError\<close> of
  the integer conversion. The four values of the specification come out as stated.
\<close>

theorem normalize_metric_first_digit_run:
  "normalize_metric (PyInt n) = Inr (PyInt n)
   \<and> normalize_metric PyNone = Inr PyNone
   \<and> ((\<forall>c \<in> set s. \<not> is_digit c) \<longrightarrow> normalize_metric (PyStr s) = Inr (PyStr s))
   \<and> ((\<forall>c \<in> set pre. \<not> is_digit c) \<and> ds \<noteq> [] \<and> (\<forall>c \<in> set ds. is_digit c)
        \<and> (post = [] \<or> \<not> is_digit (hd post)) \<and> length ds \<le> 4300
       \<longrightarrow> normalize_metric (PyStr (pre @ ds @ post)) = Inr (PyInt (int_of_digits ds)))
   \<and> ((\<forall>c \<in> set pre. \<not> is_digit c) \<and> ds \<noteq> [] \<and> (\<forall>c \<in> set ds. is_digit c)
        \<and> (post = [] \<or> \<not> is_digit (hd post)) \<and> 4300 < length ds
       \<longrightarrow> normalize_metric (PyStr (pre @ ds @ post)) = Inl digit_limit_exceeded)
   \<and> int_of_digits [] = 0
   \<and> int_of_digits (ds @ [c]) = 10 * int_of_digits ds + digit_val c
   \<and> normalize_metric (PyStr ''7'') = Inr (PyInt 7)
   \<and> normalize_metric (PyStr ''Score: 9 out of 10'') = Inr (PyInt 9)
   \<and> normalize_metric (PyStr ''no digits here'') = Inr (PyStr ''no digits here'')
   \<and> normalize_metric (PyInt 8) = Inr (PyInt 8)
   \<and> normalize_metric (PyStr ''accuracy 4200'') = Inr (PyInt 4200)
   \<and> normalize_metric (PyStr ''-5'') = Inr (PyInt 5)
   \<and> normalize_metric (PyInt (- 3)) = Inr (PyInt (- 3))"
proof -
  have a: "(\<forall>c \<in> set s. \<not> is_digit c) \<longrightarrow> normalize_metric (PyStr s) = Inr (PyStr s)"
    by (simp add: re_search_digits_none)
  have b: "(\<forall>c \<in> set pre. \<not> is_digit c) \<and> ds \<noteq> [] \<and> (\<forall>c \<in> set ds. is_digit c)
        \<and> (post = [] \<or> \<not> is_digit (hd post)) \<and> length ds \<le> 4300
       \<longrightarrow> normalize_metric (PyStr (pre @ ds @ post)) = Inr (PyInt (int_of_digits ds))"
    using normalize_metric_run [of pre ds post] by auto
  have c: "(\<forall>c \<in> set pre. \<not> is_digit c) \<and> ds \<noteq> [] \<and> (\<forall>c \<in> set ds. is_digit c)
        \<and> (post = [] \<or> \<not> is_digit (hd post)) \<and> 4300 < length ds
       \<longrightarrow> normalize_metric (PyStr (pre @ ds @ post)) = Inl digit_limit_exceeded"
    using normalize_metric_run [of pre ds post] by auto
  have e1: "normalize_metric (PyStr ''7'') = Inr (PyInt 7)"
    by (simp add: re_search_digits_def is_digit_def py_int_def int_max_str_digits_def
        int_of_digits_def digit_val_def)
  have e2: "normalize_metric (PyStr ''Score: 9 out of 10'') = Inr (PyInt 9)"
    by (simp add: re_search_digits_def is_digit_def py_int_def int_max_str_digits_def
        int_of_digits_def digit_val_def)
  have e3: "normalize_metric (PyStr ''no digits here'') = Inr (PyStr ''no digits here'')"
    by (simp add: re_search_digits_def is_digit_def)
  have e4: "normalize_metric (PyStr ''accuracy 4200'') = Inr (PyInt 4200)"
    by (simp add: re_search_digits_def is_digit_def py_int_def int_max_str_digits_def
        int_of_digits_def digit_val_def)
  have e5: "normalize_metric (PyStr ''-5'') = Inr (PyInt 5)"
    by (simp add: re_search_digits_def is_digit_def py_int_def int_max_str_digits_def
        int_of_digits_def digit_val_def)
  have z: "int_of_digits [] = 0"
    by (simp add: int_of_digits_def)
  show ?thesis
    using a b c e1 e2 e3 e4 e5 z by (simp add: int_of_digits_snoc)
qed

theorem normalize_metric_first_digit_run_witness:
  "normalize_metric (PyStr ''n/a'') = Inr (PyStr ''n/a'')
   \<and> normalize_metric (PyStr ''about 12.5'') = Inr (PyInt 12)
   \<and> normalize_metric (PyStr (''score '' @ replicate 4301 CHR ''9'' @ ''!'')) =
        Inl (ValueError ''Exceeds the limit (4300 digits) for integer string conversion'')"
proof -
  have a: "\<forall>c \<in> set ''n/a''. \<not> is_digit c"
    by (simp add: is_digit_def)
  have b: "(\<forall>c \<in> set ''about ''. \<not> is_digit c) \<and> ''12'' \<noteq> [] \<and> (\<forall>c \<in> set ''12''. is_digit c)
        \<and> (''.5'' = [] \<or> \<not> is_digit (hd ''.5'')) \<and> length ''12'' \<le> 4300"
    by (simp add: is_digit_def)
  have c: "(\<forall>c \<in> set ''score ''. \<not> is_digit c) \<and> replicate 4301 CHR ''9'' \<noteq> []
        \<and> (\<forall>c \<in> set (replicate 4301 CHR ''9''). is_digit c)
        \<and> (''!'' = [] \<or> \<not> is_digit (hd ''!'')) \<and> 4300 < length (replicate 4301 CHR ''9'')"
    by (simp add: is_digit_def)
  have v: "int_of_digits ''12'' = 12"
    by (simp add: int_of_digits_def digit_val_def)
  have r1: "normalize_metric (PyStr ''n/a'') = Inr (PyStr ''n/a'')"
    using normalize_metric_first_digit_run [of _ "''n/a''"] a by blast
  have r2: "normalize_metric (PyStr (''about '' @ ''12'' @ ''.5'')) = Inr (PyInt (int_of_digits ''12''))"
    using normalize_metric_first_digit_run [of _ _ "''about ''" "''12''" "''.5''"] b by blast
  have r3: "normalize_metric (PyStr (''score '' @ replicate 4301 CHR ''9'' @ ''!'')) =
              Inl digit_limit_exceeded"
    using normalize_metric_first_digit_run [of _ _ "''score ''" "replicate 4301 CHR ''9''" "''!''"] c
    by blast
  show ?thesis
    using r1 r2 r3 v by (simp add: digit_limit_exceeded_def)
qed

text \<open>
  The claim as stated, that the digit run is parsed as the integer score for every value and
  that nothing is rejected, fails at the string of 4301 nines: the conversion raises.
\<close>

theorem normalize_metric_long_run_counterexample:
  "normalize_metric (PyStr (replicate 4301 CHR ''9'')) =
     Inl (ValueError ''Exceeds the limit (4300 digits) for integer string conversion'')"
  using normalize_metric_nines by (simp add: digit_limit_exceeded_def)

text \<open>
  Claim C9. Normalizing twice is normalizing once, also where the normalization raises: the
  second normalization, run on the outcome of the first, gives the outcome of the first. A
  parsed integer is no longer a string, and a value without a digit comes back unchanged,
  so every normalized value is a fixed point.
\<close>

theorem normalize_metric_idempotent:
  "(case normalize_metric m of Inl e \<Rightarrow> Inl e | Inr v \<Rightarrow> normalize_metric v) = normalize_metric m
   \<and> (normalize_metric m = Inr v \<longrightarrow> normalize_metric v = Inr v)"
proof -
  have f: "normalize_metric m = Inr v \<longrightarrow> normalize_metric v = Inr v"
    by (simp add: normalize_metric_fixed)
  have "(case normalize_metric m of Inl e \<Rightarrow> Inl e | Inr v \<Rightarrow> normalize_metric v) = normalize_metric m"
  proof (cases "normalize_metric m")
    case (Inl e)
    then show ?thesis by simp
  next
    case (Inr u)
    then show ?thesis using normalize_metric_fixed [of m u] by simp
  qed
  then show ?thesis using f by simp
qed

theorem normalize_metric_idempotent_witness:
  "normalize_metric (PyStr ''Score: 9 out of 10'') = Inr (PyInt 9)
   \<and> normalize_metric (PyInt 9) = Inr (PyInt 9)"
proof -
  have n: "normalize_metric (PyStr ''Score: 9 out of 10'') = Inr (PyInt 9)"
    by (simp add: re_search_digits_def is_digit_def py_int_def int_max_str_digits_def
        int_of_digits_def digit_val_def)
  show ?thesis
    using normalize_metric_idempotent [of "PyStr ''Score: 9 out of 10''" "PyInt 9"] n by simp
qed

section \<open>Properties of the chunker\<close>

lemma split_acc_words:
  "(\<forall>c \<in> set acc. \<not> is_space c) \<Longrightarrow> w \<in> set (split_acc s acc) \<Longrightarrow> is_word w"
proof (induction s arbitrary: acc)
  case Nil
  then show ?case by (cases "acc = []") (simp_all add: is_word_def)
next
  case (Cons c cs)
  show ?case
  proof (cases "is_space c")
    case True
    show ?thesis
    proof (cases "acc = []")
      case True
      with \<open>is_space c\<close> Cons.prems have "w \<in> set (split_acc cs [])" by simp
      then show ?thesis using Cons.IH [of "[]"] by simp
    next
      case False
      with \<open>is_space c\<close> Cons.prems have "w = acc \<or> w \<in> set (split_acc cs [])" by simp
      then show ?thesis
      proof
        assume "w = acc"
        then show ?thesis using False Cons.prems(1) by (simp add: is_word_def)
      next
        assume "w \<in> set (split_acc cs [])"
        then show ?thesis using Cons.IH [of "[]"] by simp
      qed
    qed
  next
    case False
    with Cons.prems have "w \<in> set (split_acc cs (acc @ [c]))" by simp
    moreover have "\<forall>d \<in> set (acc @ [c]). \<not> is_space d" using False Cons.prems(1) by simp
    ultimately show ?thesis using Cons.IH [of "acc @ [c]"] by simp
  qed
qed

lemma split_ws_words: "w \<in> set (split_ws s) \<Longrightarrow> is_word w"
  using split_acc_words [of "[]" w s] by (simp add: split_ws_def)

lemma split_acc_nonspace:
  "(\<forall>c \<in> set w. \<not> is_space c) \<Longrightarrow> split_acc (w @ rest) acc = split_acc rest (acc @ w)"
  by (induction w arbitrary: acc) simp_all

lemma is_space_blank: "is_space CHR '' ''"
  by (simp add: is_space_def)

lemma split_ws_join:
  "(\<forall>w \<in> set ws. is_word w) \<Longrightarrow> split_ws (join sep_space ws) = ws"
proof (induction sep_space ws rule: join.induct)
  case 1
  then show ?case by (simp add: split_ws_def)
next
  case (2 x)
  then show ?case
    using split_acc_nonspace [of x "[]" "[]"] by (simp add: split_ws_def is_word_def)
next
  case (3 x y ys)
  have "split_acc (x @ sep_space @ join sep_space (y # ys)) [] =
        split_acc (sep_space @ join sep_space (y # ys)) x"
    using 3 split_acc_nonspace [of x "sep_space @ join sep_space (y # ys)" "[]"]
    by (simp add: is_word_def)
  also have "\<dots> = x # split_acc (join sep_space (y # ys)) []"
    using 3 by (simp add: sep_space_def is_space_blank is_word_def)
  finally show ?case
    using 3 by (simp add: split_ws_def)
qed

lemma join_append:
  "xs \<noteq> [] \<Longrightarrow> ys \<noteq> [] \<Longrightarrow> join sep (xs @ ys) = join sep xs @ sep @ join sep ys"
proof (induction sep xs rule: join.induct)
  case (2 sep x)
  then show ?case by (cases ys) simp_all
qed simp_all

lemma join_concat:
  "(\<forall>g \<in> set gs. g \<noteq> []) \<Longrightarrow> join sep (map (join sep) gs) = join sep (concat gs)"
proof (induction gs)
  case Nil
  then show ?case by simp
next
  case (Cons g gs)
  show ?case
  proof (cases gs)
    case Nil
    then show ?thesis by simp
  next
    case (Cons h hs)
    have ne: "concat gs \<noteq> []" using Cons Cons.prems by auto
    have "join sep (map (join sep) (g # gs)) = join sep g @ sep @ join sep (map (join sep) gs)"
      using Cons by simp
    also have "\<dots> = join sep g @ sep @ join sep (concat gs)"
      using Cons.IH Cons.prems by simp
    also have "\<dots> = join sep (g @ concat gs)"
      using join_append [of g "concat gs" sep] ne Cons.prems by simp
    finally show ?thesis by simp
  qed
qed

lemma slice_idx_nonneg:
  assumes "0 \<le> k"
  shows "slice_idx (int L) k = min L (nat k)"
proof (cases "int L \<le> k")
  case True
  then have "L \<le> nat k" by linarith
  then show ?thesis using True assms by (simp add: slice_idx_def min.absorb1)
next
  case False
  then have "nat k \<le> L" by linarith
  then show ?thesis using False assms by (simp add: slice_idx_def min.absorb2)
qed
lemma slice_clamped:
  assumes "0 \<le> i" "0 \<le> j"
  shows "slice xs i j = take (min (length xs) (nat j) - min (length xs) (nat i))
                            (drop (min (length xs) (nat i)) xs)"
    using assms by (simp add: slice_def Let_def slice_idx_nonneg)

lemma slice_nonneg:
  assumes "0 \<le> i" "0 \<le> j"
  shows "slice xs i j = take (nat j - nat i) (drop (nat i) xs)"
proof (cases "nat i < length xs")
  case True
  then have m: "min (length xs) (nat i) = nat i" by (rule_tac min.absorb2) arith
  have "take (min (length xs) (nat j) - nat i) (drop (nat i) xs) =
        take (nat j - nat i) (drop (nat i) xs)"
  proof (cases "nat j < length xs")
    case True
    then have "min (length xs) (nat j) = nat j" by (rule_tac min.absorb2) arith
    then show ?thesis by (rule_tac arg_cong [where f = "\<lambda>n. take (n - nat i) (drop (nat i) xs)"])
  next
    case False
    then have e: "min (length xs) (nat j) = length xs" by (rule_tac min.absorb1) arith
    have l: "length (drop (nat i) xs) = length xs - nat i" by (rule length_drop)
    have "length (drop (nat i) xs) \<le> nat j - nat i" unfolding l using False by arith
    then have "take (nat j - nat i) (drop (nat i) xs) = drop (nat i) xs" by (rule take_all)
    moreover have "take (length xs - nat i) (drop (nat i) xs) = drop (nat i) xs"
      using l by (intro take_all) arith
    ultimately show ?thesis unfolding e by (rule_tac trans [OF _ sym])
  qed
  then show ?thesis unfolding slice_clamped [OF assms] m .
next
  case False
  then have "length xs \<le> nat i" by arith
  then have "drop (nat i) xs = []" "drop (min (length xs) (nat i)) xs = []" by simp_all
  then show ?thesis unfolding slice_clamped [OF assms] by simp
qed

lemma slice_chunk:
  assumes "0 \<le> i" "0 < c"
  shows "slice xs i (i + c) = take (nat c) (drop (nat i) xs)"
proof -
  have e: "nat (i + c) - nat i = nat c" using assms by arith
  have "0 \<le> i + c" using assms by arith
  then have "slice xs i (i + c) = take (nat (i + c) - nat i) (drop (nat i) xs)"
    using assms(1) by (intro slice_nonneg)
  then show ?thesis unfolding e .
qed

lemma range_from_step:
  "0 < step \<Longrightarrow> i < stop \<Longrightarrow> range_from i stop step = i # range_from (i + step) stop step"
  by (subst range_from.simps) simp

lemma range_from_done:
  "0 < step \<Longrightarrow> \<not> i < stop \<Longrightarrow> range_from i stop step = []"
  by (subst range_from.simps) simp

lemma range_from_negative:
  "step < 0 \<Longrightarrow> start \<le> stop \<Longrightarrow> range_from start stop step = []"
  by (subst range_from.simps) simp

lemma range_from_concat:
  "0 < c \<Longrightarrow> 0 \<le> i \<Longrightarrow> n = int (length ws) \<Longrightarrow>
   concat (map (\<lambda>j. slice ws j (j + c)) (range_from i n c)) = drop (nat i) ws"
proof (induction i n c rule: range_from.induct)
  case (1 i stop step)
  show ?case
  proof (cases "i < stop")
    case True
    have ih: "concat (map (\<lambda>j. slice ws j (j + step)) (range_from (i + step) stop step))
              = drop (nat (i + step)) ws"
      using "1.IH" "1.prems" True by simp
    have "nat (i + step) = nat step + nat i" using "1.prems" by arith
    then have "take (nat step) (drop (nat i) ws) @ drop (nat (i + step)) ws = drop (nat i) ws"
      using append_take_drop_id [of "nat step" "drop (nat i) ws"] by (simp only: drop_drop)
    then have tk: "slice ws i (i + step) @ drop (nat (i + step)) ws = drop (nat i) ws"
      using slice_chunk [OF "1.prems"(2) "1.prems"(1), of ws] by simp
    show ?thesis
      unfolding range_from_step [OF "1.prems"(1) True] using ih tk by simp
  next
    case False
    then have "length ws \<le> nat i" using "1.prems" by arith
    then show ?thesis
      unfolding range_from_done [OF "1.prems"(1) False] by simp
  qed
qed

lemma range_from_bounds:
  "0 < c \<Longrightarrow> j \<in> set (range_from i n c) \<Longrightarrow> i \<le> j \<and> j < n"
proof (induction i n c rule: range_from.induct)
  case (1 i stop step)
  show ?case
  proof (cases "i < stop")
    case True
    have r: "range_from i stop step = i # range_from (i + step) stop step"
      using "1.prems"(1) True by (rule range_from_step)
    show ?thesis
    proof (cases "j = i")
      case True
      then show ?thesis using \<open>i < stop\<close> by simp
    next
      case False
      then have "j \<in> set (range_from (i + step) stop step)"
        using "1.prems"(2) unfolding r by simp
      then have "i + step \<le> j \<and> j < stop"
        using "1.IH" "1.prems"(1) True by simp
      then show ?thesis using "1.prems"(1) by arith
    qed
  next
    case False
    have r: "range_from i stop step = []"
      using "1.prems"(1) False by (rule range_from_done)
    show ?thesis using "1.prems"(2) unfolding r by simp
  qed
qed

lemma range_from_butlast:
  "0 < c \<Longrightarrow> j \<in> set (butlast (range_from i n c)) \<Longrightarrow> j + c < n"
proof (induction i n c rule: range_from.induct)
  case (1 i stop step)
  show ?case
  proof (cases "i < stop")
    case True
    have r: "range_from i stop step = i # range_from (i + step) stop step"
      using "1.prems"(1) True by (rule range_from_step)
    show ?thesis
    proof (cases "range_from (i + step) stop step = []")
      case True
      then show ?thesis using "1.prems"(2) unfolding r by simp
    next
      case False
      then have "hd (range_from (i + step) stop step) \<in> set (range_from (i + step) stop step)"
        by simp
      then have "i + step \<le> hd (range_from (i + step) stop step)
                 \<and> hd (range_from (i + step) stop step) < stop"
        by (rule range_from_bounds [OF "1.prems"(1)])
      then have i: "i + step < stop" by arith
      show ?thesis
      proof (cases "j = i")
        case True
        then show ?thesis using i by simp
      next
        case False
        then have "j \<in> set (butlast (range_from (i + step) stop step))"
          using "1.prems"(2) \<open>range_from (i + step) stop step \<noteq> []\<close> unfolding r by simp
        then show ?thesis
          using "1.IH" "1.prems"(1) \<open>i < stop\<close> by simp
      qed
    qed
  next
    case False
    have r: "range_from i stop step = []"
      using "1.prems"(1) False by (rule range_from_done)
    show ?thesis using "1.prems"(2) unfolding r by simp
  qed
qed

lemma split_acc_dropWhile:
  "split_acc (dropWhile is_space cs) [] = split_acc cs []"
  by (induction cs) simp_all

lemma split_acc_re_sub_ws:
  "split_acc (re_sub_ws s) acc = split_acc s acc"
proof (induction s arbitrary: acc rule: re_sub_ws.induct)
  case 1
  then show ?case by simp
next
  case (2 c cs)
  show ?case
  proof (cases "is_space c")
    case True
    then show ?thesis
      using "2.IH"(1) [OF True, of "[]"] by (simp add: is_space_blank split_acc_dropWhile)
  next
    case False
    then show ?thesis
      using "2.IH"(2) [OF False, of "acc @ [c]"] by simp
  qed
qed

lemma split_ws_re_sub_ws: "split_ws (re_sub_ws s) = split_ws s"
  by (simp add: split_ws_def split_acc_re_sub_ws)

lemma re_sub_ws_nonspace:
  "(\<forall>c \<in> set w. \<not> is_space c) \<Longrightarrow> re_sub_ws (w @ rest) = w @ re_sub_ws rest"
  by (induction w) simp_all

lemma re_sub_ws_join:
  "(\<forall>w \<in> set ws. is_word w) \<Longrightarrow> re_sub_ws (join sep_space ws) = join sep_space ws"
proof (induction sep_space ws rule: join.induct)
  case 1
  then show ?case by simp
next
  case (2 x)
  then show ?case
    using re_sub_ws_nonspace [of x "[]"] by (simp add: is_word_def)
next
  case (3 x y ys)
  have y: "is_word y" using 3 by simp
  then obtain c cs where ycs: "y = c # cs" and c: "\<not> is_space c"
    by (cases y) (simp_all add: is_word_def)
  have "dropWhile is_space (join sep_space (y # ys)) = join sep_space (y # ys)"
    using ycs c by (cases ys) simp_all
  then have "re_sub_ws (sep_space @ join sep_space (y # ys)) =
             sep_space @ re_sub_ws (join sep_space (y # ys))"
    by (simp add: sep_space_def is_space_blank)
  then show ?case
    using 3 re_sub_ws_nonspace [of x "sep_space @ join sep_space (y # ys)"]
    by (simp add: is_word_def)
qed

lemma chunks_zero_step:
  "chunk_size vs = 0 \<Longrightarrow>
   split_text_into_chunks vs = Inl (ValueError ''range() arg 3 must not be zero'')"
  by (simp add: split_text_into_chunks_def py_range_def)

lemma chunks_negative_step:
  "chunk_size vs < 0 \<Longrightarrow> split_text_into_chunks vs = Inr []"
  by (simp add: split_text_into_chunks_def py_range_def range_from_negative)

lemma chunks_positive_step:
  "0 < chunk_size vs \<Longrightarrow> \<exists>chunks. split_text_into_chunks vs = Inr chunks"
  by (simp add: split_text_into_chunks_def py_range_def Let_def)

text \<open>
  Claim C2. For a positive chunk size the chunker returns a list of chunks, and: every chunk
  holds at least one and at most \<open>chunk_size\<close> words; every chunk but the last holds
  exactly \<open>chunk_size\<close> words; the chunks joined with single blanks are the words of the
  text joined with single blanks, so the joined chunks and the text (also after every
  whitespace run has been replaced by one blank) have the same sequence of words; each
  chunk is already whitespace-normalized; the empty text gives no chunk.
\<close>

theorem split_text_into_chunks_ok:
  assumes c: "0 < chunk_size vs"
  shows "\<exists>chunks. split_text_into_chunks vs = Inr chunks
    \<and> (\<forall>c \<in> set chunks. 1 \<le> length (split_ws c) \<and> int (length (split_ws c)) \<le> chunk_size vs)
    \<and> (\<forall>c \<in> set (butlast chunks). int (length (split_ws c)) = chunk_size vs)
    \<and> join sep_space chunks = join sep_space (split_ws (context_information vs))
    \<and> split_ws (join sep_space chunks) = split_ws (context_information vs)
    \<and> concat (map split_ws chunks) = split_ws (context_information vs)
    \<and> split_ws (join sep_space chunks) = split_ws (re_sub_ws (context_information vs))
    \<and> map re_sub_ws chunks = chunks
    \<and> (context_information vs = [] \<longrightarrow> chunks = [])"
proof -
  define C where "C = chunk_size vs"
  define W where "W = split_ws (context_information vs)"
  define starts where "starts = range_from 0 (int (length W)) C"
  define grp where "grp = (\<lambda>i. slice W i (i + C))"
  define chunks where "chunks = map (\<lambda>i. join sep_space (grp i)) starts"
  have C: "0 < C" using c by (simp add: C_def)
  have res: "split_text_into_chunks vs = Inr chunks"
    using C by (simp add: split_text_into_chunks_def py_range_def Let_def chunks_def grp_def
        starts_def W_def C_def)
  have Wword: "\<forall>w \<in> set W. is_word w"
    by (simp add: W_def split_ws_words)
  have grp_take: "grp j = take (nat C) (drop (nat j) W)" if "j \<in> set starts" for j
  proof -
    have "0 \<le> j" using range_from_bounds [OF C, of j 0 "int (length W)"] that
      by (simp add: starts_def)
    then show ?thesis unfolding grp_def by (rule slice_chunk [OF _ C])
  qed
  have grp_word: "\<forall>w \<in> set (grp j). is_word w" if "j \<in> set starts" for j
  proof
    fix w assume "w \<in> set (grp j)"
    then have "w \<in> set (take (nat C) (drop (nat j) W))" using grp_take [OF that] by simp
    then have "w \<in> set W" by (meson in_set_takeD in_set_dropD)
    then show "is_word w" using Wword by simp
  qed
  have grp_len: "1 \<le> length (grp j) \<and> int (length (grp j)) \<le> C" if "j \<in> set starts" for j
  proof -
    have b: "0 \<le> j \<and> j < int (length W)"
      using range_from_bounds [OF C, of j 0 "int (length W)"] that by (simp add: starts_def)
    have "length (grp j) = min (length W - nat j) (nat C)"
      using grp_take [OF that] by simp
    then show ?thesis using b C by arith
  qed
  have grp_full: "int (length (grp j)) = C" if "j \<in> set (butlast starts)" for j
  proof -
    have j: "j \<in> set starts" using that by (rule in_set_butlastD)
    have b: "0 \<le> j \<and> j < int (length W)"
      using range_from_bounds [OF C, of j 0 "int (length W)"] j by (simp add: starts_def)
    have f: "j + C < int (length W)"
      using range_from_butlast [OF C, of j 0 "int (length W)"] that by (simp add: starts_def)
    have "length (grp j) = min (length W - nat j) (nat C)"
      using grp_take [OF j] by simp
    then show ?thesis using b f C by arith
  qed
  have rt: "split_ws (join sep_space (grp j)) = grp j" if "j \<in> set starts" for j
    using grp_word [OF that] by (rule split_ws_join)
  have p1: "\<forall>c \<in> set chunks. 1 \<le> length (split_ws c) \<and> int (length (split_ws c)) \<le> C"
    using rt grp_len by (auto simp: chunks_def)
  have p2: "\<forall>c \<in> set (butlast chunks). int (length (split_ws c)) = C"
  proof
    fix c assume "c \<in> set (butlast chunks)"
    then obtain j where j: "j \<in> set (butlast starts)" and cj: "c = join sep_space (grp j)"
      by (auto simp: chunks_def map_butlast [symmetric])
    have "j \<in> set starts" using j by (rule in_set_butlastD)
    then show "int (length (split_ws c)) = C"
      using rt grp_full [OF j] cj by simp
  qed
  have cat: "concat (map grp starts) = W"
    using range_from_concat [OF C, of 0 "int (length W)" W] by (simp add: grp_def starts_def)
  have ne: "\<forall>g \<in> set (map grp starts). g \<noteq> []"
    using grp_len by fastforce
  have "join sep_space chunks = join sep_space (map (join sep_space) (map grp starts))"
    by (simp add: chunks_def comp_def)
  also have "\<dots> = join sep_space (concat (map grp starts))"
    using ne by (rule join_concat)
  finally have p3: "join sep_space chunks = join sep_space W"
    using cat by simp
  have p4: "split_ws (join sep_space chunks) = W"
    unfolding p3 using Wword by (rule split_ws_join)
  have "map split_ws chunks = map grp starts"
    using rt by (simp add: chunks_def)
  then have p5: "concat (map split_ws chunks) = W"
    using cat by simp
  have p7: "split_ws (join sep_space chunks) = split_ws (re_sub_ws (context_information vs))"
    using p4 by (simp add: W_def split_ws_re_sub_ws)
  have p8: "map re_sub_ws chunks = chunks"
    using grp_word by (simp add: chunks_def re_sub_ws_join map_idI)
  have p6: "context_information vs = [] \<longrightarrow> chunks = []"
  proof
    assume "context_information vs = []"
    then have "W = []" by (simp add: W_def split_ws_def)
    then have "starts = []" using C by (simp add: starts_def range_from_done)
    then show "chunks = []" by (simp add: chunks_def)
  qed
  show ?thesis
    using res p1 p2 p3 p4 p5 p6 p7 p8 unfolding C_def W_def by blast
qed

theorem split_text_into_chunks_ok_witness:
  "split_text_into_chunks
     \<lparr>context_information = '' a bb  c d e '', db_path = ''./db'', tablename = ''context'',
      chunk_size = 2\<rparr> = Inr [''a bb'', ''c d'', ''e'']
   \<and> join sep_space [''a bb'', ''c d'', ''e''] = join sep_space (split_ws '' a bb  c d e '')"
proof -
  let ?vs = "\<lparr>context_information = '' a bb  c d e '', db_path = ''./db'',
             tablename = ''context'', chunk_size = 2\<rparr>"
  have e: "split_text_into_chunks ?vs = Inr [''a bb'', ''c d'', ''e'']"
    by code_simp
  have "0 < chunk_size ?vs" by simp
  from split_text_into_chunks_ok [OF this] e show ?thesis by simp
qed

text \<open>
  Claim C3, as amended. The chunker has no check of its own on the chunk size. With chunk
  size 0 it fails, for every text, with the \<open>ValueError\<close> that \<open>range\<close> raises for a zero
  step. With a negative chunk size it does not fail: \<open>range\<close> is empty and the result is the
  empty list of chunks, for every text.
\<close>

theorem split_text_into_chunks_nonpositive:
  "(chunk_size vs = 0 \<longrightarrow>
      split_text_into_chunks vs = Inl (ValueError ''range() arg 3 must not be zero''))
   \<and> (chunk_size vs < 0 \<longrightarrow> split_text_into_chunks vs = Inr [])"
  using chunks_zero_step [of vs] chunks_negative_step [of vs] by blast

theorem split_text_into_chunks_nonpositive_witness:
  "split_text_into_chunks
     \<lparr>context_information = ''a b'', db_path = ''./db'', tablename = ''context'',
      chunk_size = 0\<rparr> = Inl (ValueError ''range() arg 3 must not be zero'')
   \<and> split_text_into_chunks
     \<lparr>context_information = ''a b'', db_path = ''./db'', tablename = ''context'',
      chunk_size = - 3\<rparr> = Inr []"
  using split_text_into_chunks_nonpositive
          [of "\<lparr>context_information = ''a b'', db_path = ''./db'', tablename = ''context'',
                chunk_size = 0\<rparr>"]
        split_text_into_chunks_nonpositive
          [of "\<lparr>context_information = ''a b'', db_path = ''./db'', tablename = ''context'',
                chunk_size = - 3\<rparr>"]
  by simp

text \<open>
  The claim as stated, that every chunk size that is zero or negative gives an error, fails
  at chunk size -1: the call returns the empty list.
\<close>

theorem split_text_into_chunks_negative_counterexample:
  "split_text_into_chunks
     \<lparr>context_information = ''a b'', db_path = ''./db'', tablename = ''context'',
      chunk_size = - 1\<rparr> = Inr []"
  by (simp add: split_text_into_chunks_def py_range_def range_from_negative)

section \<open>Properties of the index store and of the constructors\<close>

lemma persist_on_db_existing:
  assumes "db (tablename vs) = Some tbl"
  shows "persist_on_db em vs db = (db(tablename vs \<mapsto> tbl\<lparr>fts_index := True\<rparr>), None)"
  using assms by (simp add: persist_on_db_def create_fts_index_def)

lemma persist_on_db_creates:
  "\<exists>tbl. fst (persist_on_db em vs db) (tablename vs) = Some tbl"
proof (cases "db (tablename vs)")
  case (Some tbl)
  then show ?thesis by (simp add: persist_on_db_existing)
next
  case None
  then show ?thesis
    by (cases "split_text_into_chunks vs")
      (simp_all add: persist_on_db_def create_table_def add_rows_def create_fts_index_def Let_def)
qed

lemma persist_on_db_success_indexed:
  assumes "persist_on_db em vs db = (db', None)" "db' (tablename vs) = Some tbl"
  shows "fts_index tbl"
proof (cases "db (tablename vs)")
  case (Some t)
  then show ?thesis using assms by (auto simp: persist_on_db_existing)
next
  case None
  then show ?thesis using assms
    by (cases "split_text_into_chunks vs")
      (auto simp: persist_on_db_def create_table_def add_rows_def create_fts_index_def Let_def)
qed

text \<open>
  Claim C7. When the named table does not exist, it is created and receives one row per
  chunk. When the named table exists, \<open>_persist_on_db\<close> raises nothing, leaves the rows of
  that table as they are and leaves every other table as it is. After a first call the table
  exists, so a second call for the same table name (with the same or with other data) raises
  nothing and leaves the rows, hence the row count, unchanged; after a first call that
  succeeded, the second call changes nothing at all.
\<close>

theorem persist_on_db_idempotent:
  "(db (tablename vs) = Some tbl \<longrightarrow>
      snd (persist_on_db em vs db) = None
      \<and> map_option rows (fst (persist_on_db em vs db) (tablename vs)) = Some (rows tbl)
      \<and> (\<forall>name. name \<noteq> tablename vs \<longrightarrow> fst (persist_on_db em vs db) name = db name))
   \<and> (tablename vs' = tablename vs \<longrightarrow>
        fst (persist_on_db em vs db) (tablename vs) \<noteq> None
        \<and> snd (persist_on_db em vs' (fst (persist_on_db em vs db))) = None
        \<and> map_option rows (fst (persist_on_db em vs' (fst (persist_on_db em vs db))) (tablename vs))
            = map_option rows (fst (persist_on_db em vs db) (tablename vs))
        \<and> map_option (\<lambda>t. length (rows t))
              (fst (persist_on_db em vs' (fst (persist_on_db em vs db))) (tablename vs))
            = map_option (\<lambda>t. length (rows t)) (fst (persist_on_db em vs db) (tablename vs)))
   \<and> (snd (persist_on_db em vs db) = None \<longrightarrow>
        fst (persist_on_db em vs (fst (persist_on_db em vs db))) = fst (persist_on_db em vs db))
   \<and> (db (tablename vs) = None \<and> split_text_into_chunks vs = Inr chunks \<longrightarrow>
        map_option (\<lambda>t. map row_text (rows t)) (fst (persist_on_db em vs db) (tablename vs))
          = Some (map re_sub_ws chunks))"
proof -
  have d: "db (tablename vs) = None \<and> split_text_into_chunks vs = Inr chunks \<longrightarrow>
        map_option (\<lambda>t. map row_text (rows t)) (fst (persist_on_db em vs db) (tablename vs))
          = Some (map re_sub_ws chunks)"
    by (simp add: persist_on_db_def create_table_def add_rows_def create_fts_index_def Let_def
        comp_def)
  have a: "db (tablename vs) = Some tbl \<longrightarrow>
      snd (persist_on_db em vs db) = None
      \<and> map_option rows (fst (persist_on_db em vs db) (tablename vs)) = Some (rows tbl)
      \<and> (\<forall>name. name \<noteq> tablename vs \<longrightarrow> fst (persist_on_db em vs db) name = db name)"
    by (simp add: persist_on_db_existing)
  obtain t where t: "fst (persist_on_db em vs db) (tablename vs) = Some t"
    using persist_on_db_creates by blast
  have b: "tablename vs' = tablename vs \<longrightarrow>
        fst (persist_on_db em vs db) (tablename vs) \<noteq> None
        \<and> snd (persist_on_db em vs' (fst (persist_on_db em vs db))) = None
        \<and> map_option rows (fst (persist_on_db em vs' (fst (persist_on_db em vs db))) (tablename vs))
            = map_option rows (fst (persist_on_db em vs db) (tablename vs))
        \<and> map_option (\<lambda>t. length (rows t))
              (fst (persist_on_db em vs' (fst (persist_on_db em vs db))) (tablename vs))
            = map_option (\<lambda>t. length (rows t)) (fst (persist_on_db em vs db) (tablename vs))"
  proof
    assume n: "tablename vs' = tablename vs"
    then have "fst (persist_on_db em vs db) (tablename vs') = Some t" using t by simp
    then have "persist_on_db em vs' (fst (persist_on_db em vs db)) =
          ((fst (persist_on_db em vs db))(tablename vs' \<mapsto> t\<lparr>fts_index := True\<rparr>), None)"
      by (rule persist_on_db_existing)
    then show "fst (persist_on_db em vs db) (tablename vs) \<noteq> None
        \<and> snd (persist_on_db em vs' (fst (persist_on_db em vs db))) = None
        \<and> map_option rows (fst (persist_on_db em vs' (fst (persist_on_db em vs db))) (tablename vs))
            = map_option rows (fst (persist_on_db em vs db) (tablename vs))
        \<and> map_option (\<lambda>t. length (rows t))
              (fst (persist_on_db em vs' (fst (persist_on_db em vs db))) (tablename vs))
            = map_option (\<lambda>t. length (rows t)) (fst (persist_on_db em vs db) (tablename vs))"
      using t n by simp
  qed
  have c: "snd (persist_on_db em vs db) = None \<longrightarrow>
        fst (persist_on_db em vs (fst (persist_on_db em vs db))) = fst (persist_on_db em vs db)"
  proof
    assume "snd (persist_on_db em vs db) = None"
    then have p: "persist_on_db em vs db = (fst (persist_on_db em vs db), None)"
      by (metis prod.collapse)
    have i: "fts_index t" using persist_on_db_success_indexed [OF p t] .
    have "persist_on_db em vs (fst (persist_on_db em vs db)) =
          ((fst (persist_on_db em vs db))(tablename vs \<mapsto> t\<lparr>fts_index := True\<rparr>), None)"
      using t by (rule persist_on_db_existing)
    moreover have "t\<lparr>fts_index := True\<rparr> = t" using i by simp
    ultimately show "fst (persist_on_db em vs (fst (persist_on_db em vs db))) = fst (persist_on_db em vs db)"
      using t by (simp add: fun_upd_idem)
  qed
  show ?thesis using a b c d by blast
qed

theorem persist_on_db_idempotent_witness:
  "map_option (\<lambda>t. length (rows t))
     (fst (persist_on_db length
        \<lparr>context_information = ''a b c'', db_path = ''./db'', tablename = ''context'', chunk_size = 2\<rparr>
        (fst (persist_on_db length
           \<lparr>context_information = ''a b c'', db_path = ''./db'', tablename = ''context'', chunk_size = 2\<rparr>
           Map.empty))) ''context'') = Some 2
   \<and> map_option rows
     (fst (persist_on_db length
        \<lparr>context_information = ''a b c'', db_path = ''./db'', tablename = ''context'', chunk_size = 2\<rparr>
        [''context'' \<mapsto> \<lparr>rows = [\<lparr>row_text = ''old'', row_vector = 3\<rparr>], fts_index = False\<rparr>])
      ''context'') = Some [\<lparr>row_text = ''old'', row_vector = 3\<rparr>]
   \<and> fst (persist_on_db length
        \<lparr>context_information = ''a b c'', db_path = ''./db'', tablename = ''context'', chunk_size = 2\<rparr>
        (fst (persist_on_db length
           \<lparr>context_information = ''a b c'', db_path = ''./db'', tablename = ''context'', chunk_size = 2\<rparr>
           Map.empty)))
     = fst (persist_on_db length
        \<lparr>context_information = ''a b c'', db_path = ''./db'', tablename = ''context'', chunk_size = 2\<rparr>
        Map.empty)"
proof -
  let ?vs = "\<lparr>context_information = ''a b c'', db_path = ''./db'', tablename = ''context'',
             chunk_size = 2\<rparr>"
  let ?tbl = "\<lparr>rows = [\<lparr>row_text = ''old'', row_vector = 3::nat\<rparr>], fts_index = False\<rparr>"
  have s: "split_text_into_chunks ?vs = Inr [''a b'', ''c'']"
    by code_simp
  have r: "re_sub_ws ''a b'' = ''a b''" "re_sub_ws ''c'' = ''c''"
    by (simp_all add: is_space_def)
  have first: "map_option (\<lambda>t. length (rows t)) (fst (persist_on_db length ?vs Map.empty) ''context'')
               = Some 2"
    by (simp add: persist_on_db_def s r create_table_def add_rows_def create_fts_index_def)
  have h1: "[''context'' \<mapsto> ?tbl] (tablename ?vs) = Some ?tbl" by simp
  have h2: "tablename ?vs = tablename ?vs" by simp
  have h3: "snd (persist_on_db length ?vs Map.empty) = None"
    by (simp add: persist_on_db_def s)
  show ?thesis
    using persist_on_db_idempotent [of Map.empty ?vs _ length ?vs]
      persist_on_db_idempotent [of "[''context'' \<mapsto> ?tbl]" ?vs ?tbl length ?vs]
      first h1 h2 h3
    by simp
qed

lemma Vectorstore_init_missing:
  "ci = None \<or> dbp = None \<Longrightarrow> Vectorstore_init em ci dbp tn cs st = (st, Inl missing_argument)"
  by (cases ci; cases dbp) (simp_all add: Vectorstore_init_def)

lemma Vectorstore_init_provided:
  "Vectorstore_init em (Some c) (Some p) tn cs st =
     (let vs = \<lparr>context_information = c, db_path = p, tablename = tn, chunk_size = cs\<rparr>
      in (st(p := fst (persist_on_db em vs (st p))),
          case snd (persist_on_db em vs (st p)) of Some e \<Rightarrow> Inl e | None \<Rightarrow> Inr vs))"
  by (cases "persist_on_db em \<lparr>context_information = c, db_path = p, tablename = tn, chunk_size = cs\<rparr> (st p)")
    (simp add: Vectorstore_init_def Let_def split: option.splits)

lemma persist_on_db_positive:
  "0 < chunk_size vs \<Longrightarrow> snd (persist_on_db em vs db) = None"
proof (cases "db (tablename vs)")
  case None
  assume "0 < chunk_size vs"
  then obtain chunks where "split_text_into_chunks vs = Inr chunks"
    using chunks_positive_step by blast
  then show ?thesis using None by (simp add: persist_on_db_def Let_def)
next
  case (Some t)
  then show ?thesis by (simp add: persist_on_db_existing)
qed

text \<open>
  Claim C8. When the context or the storage location is \<open>None\<close>, the constructors of
  \<open>Vectorstore\<close> and of \<open>RAG\<close> raise the \<open>ValueError\<close> "Both context_information and db_path
  must be provided" and leave the storage untouched; an instance is produced only when both
  were given, and \<open>RAG\<close> does produce one when both are given.
\<close>

theorem constructors_require_arguments:
  "(ci = None \<or> dbp = None \<longrightarrow>
      Vectorstore_init em ci dbp tn cs st = (st, Inl missing_argument)
      \<and> RAG_init em ci dbp st = (st, Inl missing_argument))
   \<and> missing_argument = ValueError ''Both context_information and db_path must be provided''
   \<and> (snd (Vectorstore_init em ci dbp tn cs st) = Inr vs \<longrightarrow>
        ci = Some (context_information vs) \<and> dbp = Some (db_path vs))
   \<and> (snd (RAG_init em ci dbp st) = Inr r \<longrightarrow>
        ci = Some (context_information (vectorstore r)) \<and> dbp = Some (db_path (vectorstore r)))
   \<and> (ci = Some c \<and> dbp = Some p \<longrightarrow>
        snd (RAG_init em ci dbp st) =
          Inr \<lparr>vectorstore = \<lparr>context_information = c, db_path = p, tablename = ''context'',
                                  chunk_size = 50\<rparr>\<rparr>)"
proof -
  have a: "ci = None \<or> dbp = None \<longrightarrow>
      Vectorstore_init em ci dbp tn cs st = (st, Inl missing_argument)
      \<and> RAG_init em ci dbp st = (st, Inl missing_argument)"
    using Vectorstore_init_missing [of ci dbp em tn cs st] by (simp add: RAG_init_def)
  have b: "snd (Vectorstore_init em ci dbp tn cs st) = Inr vs \<longrightarrow>
        ci = Some (context_information vs) \<and> dbp = Some (db_path vs)"
  proof (cases "ci = None \<or> dbp = None")
    case True
    then show ?thesis by (simp add: Vectorstore_init_missing)
  next
    case False
    then obtain c' p' where "ci = Some c'" "dbp = Some p'" by auto
    then show ?thesis
      by (auto simp: Vectorstore_init_provided Let_def split: option.splits)
  qed
  have e: "ci = Some c \<and> dbp = Some p \<longrightarrow>
        snd (RAG_init em ci dbp st) =
          Inr \<lparr>vectorstore = \<lparr>context_information = c, db_path = p, tablename = ''context'',
                                  chunk_size = 50\<rparr>\<rparr>"
    by (auto simp: RAG_init_def Vectorstore_init_provided Let_def persist_on_db_positive)
  have d: "snd (RAG_init em ci dbp st) = Inr r \<longrightarrow>
        ci = Some (context_information (vectorstore r)) \<and> dbp = Some (db_path (vectorstore r))"
  proof (cases "ci = None \<or> dbp = None")
    case True
    then show ?thesis by (simp add: RAG_init_def)
  next
    case False
    then obtain c' p' where "ci = Some c'" "dbp = Some p'" by auto
    then show ?thesis
      by (auto simp: RAG_init_def Vectorstore_init_provided Let_def persist_on_db_positive)
  qed
  show ?thesis using a b d e by (simp add: missing_argument_def)
qed

theorem constructors_require_arguments_witness:
  "Vectorstore_init length None (Some ''./db'') ''context'' 50 (\<lambda>p. Map.empty)
     = (\<lambda>p. Map.empty, Inl (ValueError ''Both context_information and db_path must be provided''))
   \<and> RAG_init length (Some ''a b c'') None (\<lambda>p. Map.empty)
     = (\<lambda>p. Map.empty, Inl (ValueError ''Both context_information and db_path must be provided''))
   \<and> snd (RAG_init length (Some ''a b c'') (Some ''./db'') (\<lambda>p. Map.empty))
     = Inr \<lparr>vectorstore = \<lparr>context_information = ''a b c'', db_path = ''./db'',
                              tablename = ''context'', chunk_size = 50\<rparr>\<rparr>
   \<and> snd (Vectorstore_init length (Some ''a b c'') (Some ''./db'') ''context'' 2 (\<lambda>p. Map.empty))
     = Inr \<lparr>context_information = ''a b c'', db_path = ''./db'', tablename = ''context'',
            chunk_size = 2\<rparr>"
  using constructors_require_arguments
          [of None "Some ''./db''" length "''context''" 50 "\<lambda>p. Map.empty"]
        constructors_require_arguments
          [of "Some ''a b c''" None length "''context''" 50 "\<lambda>p. Map.empty"]
        constructors_require_arguments
          [of "Some ''a b c''" "Some ''./db''" length "''context''" 50 "\<lambda>p. Map.empty" _ _
              "''a b c''" "''./db''"]
  by (simp add: Vectorstore_init_provided persist_on_db_positive Let_def)

section \<open>Properties of the retriever\<close>










section \<open>Properties of the evaluator and of the assistant\<close>

lemma EvaluatorRAG_forward_ok:
  "evl q c a ar w = (Inr (m, rm), w') \<Longrightarrow> normalize_metric m = Inr v \<Longrightarrow>
   EvaluatorRAG_forward evl q c a ar w =
     (Inr \<lparr>query = q, context_chunks = c, answer = a, answer_rationale = ar,
           accuracy_metric = v, rationale_metric = rm\<rparr>, w')"
  by (simp add: EvaluatorRAG_forward_def)

lemma EvaluatorRAG_forward_error:
  "evl q c a ar w = (Inl e, w') \<Longrightarrow> EvaluatorRAG_forward evl q c a ar w = (Inl e, w')"
  by (simp add: EvaluatorRAG_forward_def)

lemma EvaluatorRAG_forward_raises:
  "evl q c a ar w = (Inr (m, rm), w') \<Longrightarrow> normalize_metric m = Inl e \<Longrightarrow>
   EvaluatorRAG_forward evl q c a ar w = (Inl e, w')"
  by (simp add: EvaluatorRAG_forward_def)

lemma EvaluatorRAG_forward_result:
  assumes "EvaluatorRAG_forward evl q c a ar w = (Inr r, w')"
  shows "\<exists>m rm v. evl q c a ar w = (Inr (m, rm), w') \<and> normalize_metric m = Inr v
           \<and> r = \<lparr>query = q, context_chunks = c, answer = a, answer_rationale = ar,
                    accuracy_metric = v, rationale_metric = rm\<rparr>"
proof (cases "evl q c a ar w")
  case (Pair res w1)
  show ?thesis
  proof (cases res)
    case (Inl e)
    then show ?thesis using assms Pair by (simp add: EvaluatorRAG_forward_def)
  next
    case (Inr mr)
    obtain m rm where mr: "mr = (m, rm)" by (cases mr)
    show ?thesis
    proof (cases "normalize_metric m")
      case (Inl e)
      then show ?thesis using assms Pair Inr mr by (simp add: EvaluatorRAG_forward_def)
    next
      case (Inr v)
      then show ?thesis using assms Pair \<open>res = Inr mr\<close> mr
        by (auto simp: EvaluatorRAG_forward_def)
    qed
  qed
qed

text \<open>
  Claim C10. When \<open>EvaluatorRAG.forward\<close> returns a result, its query, context chunks, answer
  and answer rationale are the values passed in; the accuracy metric is the normalized metric
  of the language-model call and the rationale of the metric is the one that call returned.
  It returns a result whenever that call succeeds and the normalization does not raise;
  otherwise it raises what the call or the normalization raised.
\<close>

theorem EvaluatorRAG_forward_frame:
  "(EvaluatorRAG_forward evl q c a ar w = (Inr r, w') \<longrightarrow>
      query r = q \<and> context_chunks r = c \<and> answer r = a \<and> answer_rationale r = ar
      \<and> (\<exists>m rm. evl q c a ar w = (Inr (m, rm), w')
            \<and> normalize_metric m = Inr (accuracy_metric r) \<and> rationale_metric r = rm))
   \<and> (evl q c a ar w = (Inr (m, rm), w') \<and> normalize_metric m = Inr v \<longrightarrow>
        (\<exists>r. EvaluatorRAG_forward evl q c a ar w = (Inr r, w')))
   \<and> (evl q c a ar w = (Inr (m, rm), w') \<and> normalize_metric m = Inl e \<longrightarrow>
        EvaluatorRAG_forward evl q c a ar w = (Inl e, w'))
   \<and> (evl q c a ar w = (Inl e, w') \<longrightarrow> EvaluatorRAG_forward evl q c a ar w = (Inl e, w'))"
proof -
  have a: "EvaluatorRAG_forward evl q c a ar w = (Inr r, w') \<longrightarrow>
      query r = q \<and> context_chunks r = c \<and> answer r = a \<and> answer_rationale r = ar
      \<and> (\<exists>m rm. evl q c a ar w = (Inr (m, rm), w')
            \<and> normalize_metric m = Inr (accuracy_metric r) \<and> rationale_metric r = rm)"
  proof
    assume "EvaluatorRAG_forward evl q c a ar w = (Inr r, w')"
    then have "\<exists>m rm v. evl q c a ar w = (Inr (m, rm), w') \<and> normalize_metric m = Inr v
           \<and> r = \<lparr>query = q, context_chunks = c, answer = a, answer_rationale = ar,
                    accuracy_metric = v, rationale_metric = rm\<rparr>"
      by (rule EvaluatorRAG_forward_result)
    then obtain m rm v where "evl q c a ar w = (Inr (m, rm), w')"
      and "normalize_metric m = Inr v"
      and "r = \<lparr>query = q, context_chunks = c, answer = a, answer_rationale = ar,
                 accuracy_metric = v, rationale_metric = rm\<rparr>"
      by blast
    then show "query r = q \<and> context_chunks r = c \<and> answer r = a \<and> answer_rationale r = ar
      \<and> (\<exists>m rm. evl q c a ar w = (Inr (m, rm), w')
            \<and> normalize_metric m = Inr (accuracy_metric r) \<and> rationale_metric r = rm)"
      by simp
  qed
  have b: "evl q c a ar w = (Inr (m, rm), w') \<and> normalize_metric m = Inr v \<longrightarrow>
        (\<exists>r. EvaluatorRAG_forward evl q c a ar w = (Inr r, w'))"
    by (simp add: EvaluatorRAG_forward_ok)
  have c: "evl q c a ar w = (Inr (m, rm), w') \<and> normalize_metric m = Inl e \<longrightarrow>
        EvaluatorRAG_forward evl q c a ar w = (Inl e, w')"
    by (simp add: EvaluatorRAG_forward_raises)
  have d: "evl q c a ar w = (Inl e, w') \<longrightarrow> EvaluatorRAG_forward evl q c a ar w = (Inl e, w')"
    by (simp add: EvaluatorRAG_forward_error)
  show ?thesis using a b c d by (intro conjI)
qed

theorem EvaluatorRAG_forward_frame_witness:
  "EvaluatorRAG_forward (\<lambda>q c a ar w. (Inr (PyStr ''Score: 9 out of 10'', ''supported''), Suc w))
     ''Is it open on Tuesday?'' ''Monday to Friday'' ''Yes'' ''Tuesday is a weekday'' (0::nat)
   = (Inr \<lparr>query = ''Is it open on Tuesday?'', context_chunks = ''Monday to Friday'',
           answer = ''Yes'', answer_rationale = ''Tuesday is a weekday'',
           accuracy_metric = PyInt 9, rationale_metric = ''supported''\<rparr>, 1)
   \<and> EvaluatorRAG_forward
       (\<lambda>q c a ar w. (Inr (PyStr (replicate 4301 CHR ''9''), ''supported''), Suc w))
       ''Is it open on Tuesday?'' ''Monday to Friday'' ''Yes'' ''Tuesday is a weekday'' (0::nat)
     = (Inl (ValueError ''Exceeds the limit (4300 digits) for integer string conversion''), 1)"
proof -
  let ?evl = "\<lambda>(q::string) (c::string) (a::string) (ar::string) (w::nat).
                (Inr (PyStr ''Score: 9 out of 10'', ''supported'') :: error + pyval \<times> string, Suc w)"
  let ?long = "\<lambda>(q::string) (c::string) (a::string) (ar::string) (w::nat).
                (Inr (PyStr (replicate 4301 CHR ''9''), ''supported'') :: error + pyval \<times> string,
                 Suc w)"
  have n: "normalize_metric (PyStr ''Score: 9 out of 10'') = Inr (PyInt 9)"
    by (simp add: re_search_digits_def is_digit_def py_int_def int_max_str_digits_def
        int_of_digits_def digit_val_def)
  have h: "?evl ''Is it open on Tuesday?'' ''Monday to Friday'' ''Yes'' ''Tuesday is a weekday'' 0
             = (Inr (PyStr ''Score: 9 out of 10'', ''supported''), 1)
           \<and> normalize_metric (PyStr ''Score: 9 out of 10'') = Inr (PyInt 9)"
    using n by simp
  note ok = EvaluatorRAG_forward_frame
      [where evl = ?evl and q = "''Is it open on Tuesday?''" and c = "''Monday to Friday''"
         and a = "''Yes''" and ar = "''Tuesday is a weekday''" and w = 0 and w' = 1
         and m = "PyStr ''Score: 9 out of 10''" and rm = "''supported''" and v = "PyInt 9"]
  obtain r where r: "EvaluatorRAG_forward ?evl ''Is it open on Tuesday?'' ''Monday to Friday''
                        ''Yes'' ''Tuesday is a weekday'' 0 = (Inr r, 1)"
    using ok [THEN conjunct2, THEN conjunct1] h by blast
  have "query r = ''Is it open on Tuesday?'' \<and> context_chunks r = ''Monday to Friday''
        \<and> answer r = ''Yes'' \<and> answer_rationale r = ''Tuesday is a weekday''
        \<and> accuracy_metric r = PyInt 9 \<and> rationale_metric r = ''supported''"
    using EvaluatorRAG_forward_frame
            [where evl = ?evl and q = "''Is it open on Tuesday?''" and c = "''Monday to Friday''"
               and a = "''Yes''" and ar = "''Tuesday is a weekday''" and w = 0 and w' = 1
               and r = r, THEN conjunct1] r n
    by auto
  then have "r = \<lparr>query = ''Is it open on Tuesday?'', context_chunks = ''Monday to Friday'',
           answer = ''Yes'', answer_rationale = ''Tuesday is a weekday'',
           accuracy_metric = PyInt 9, rationale_metric = ''supported''\<rparr>"
    by (cases r) simp
  then have first: "EvaluatorRAG_forward ?evl ''Is it open on Tuesday?'' ''Monday to Friday''
                      ''Yes'' ''Tuesday is a weekday'' 0
   = (Inr \<lparr>query = ''Is it open on Tuesday?'', context_chunks = ''Monday to Friday'',
           answer = ''Yes'', answer_rationale = ''Tuesday is a weekday'',
           accuracy_metric = PyInt 9, rationale_metric = ''supported''\<rparr>, 1)"
    using r by simp
  have second: "EvaluatorRAG_forward ?long ''Is it open on Tuesday?'' ''Monday to Friday''
                      ''Yes'' ''Tuesday is a weekday'' 0 = (Inl digit_limit_exceeded, 1)"
    using EvaluatorRAG_forward_frame
            [where evl = ?long and q = "''Is it open on Tuesday?''" and c = "''Monday to Friday''"
               and a = "''Yes''" and ar = "''Tuesday is a weekday''" and w = 0 and w' = 1
               and m = "PyStr (replicate 4301 CHR ''9'')" and rm = "''supported''"
               and e = digit_limit_exceeded, THEN conjunct2, THEN conjunct2, THEN conjunct1]
      normalize_metric_nines
    by simp
  show ?thesis using first second by (simp add: digit_limit_exceeded_def)
qed

lemma process_question_retrieve_fails:
  "search_table search (vectorstore self) db q ''hybrid'' 3 w = (Inl e, w1) \<Longrightarrow>
   process_question search gen evl self db q w = (Inl e, w1)"
  by (simp add: process_question_def RAG_forward_def)

lemma process_question_generate_fails:
  "search_table search (vectorstore self) db q ''hybrid'' 3 w = (Inr ctx, w1) \<Longrightarrow>
   gen q ctx w1 = (Inl e, w2) \<Longrightarrow>
   process_question search gen evl self db q w = (Inl e, w2)"
  by (simp add: process_question_def RAG_forward_def)

lemma process_question_evaluate_fails:
  "search_table search (vectorstore self) db q ''hybrid'' 3 w = (Inr ctx, w1) \<Longrightarrow>
   gen q ctx w1 = (Inr (a, ar), w2) \<Longrightarrow>
   evl q ctx a ar w2 = (Inl e, w3) \<Longrightarrow>
   process_question search gen evl self db q w = (Inl e, w3)"
  by (simp add: process_question_def RAG_forward_def EvaluatorRAG_forward_def)

lemma process_question_normalize_fails:
  "search_table search (vectorstore self) db q ''hybrid'' 3 w = (Inr ctx, w1) \<Longrightarrow>
   gen q ctx w1 = (Inr (a, ar), w2) \<Longrightarrow>
   evl q ctx a ar w2 = (Inr (m, rm), w3) \<Longrightarrow>
   normalize_metric m = Inl e \<Longrightarrow>
   process_question search gen evl self db q w = (Inl e, w3)"
  by (simp add: process_question_def RAG_forward_def EvaluatorRAG_forward_def)

lemma process_question_succeeds:
  "search_table search (vectorstore self) db q ''hybrid'' 3 w = (Inr ctx, w1) \<Longrightarrow>
   gen q ctx w1 = (Inr (a, ar), w2) \<Longrightarrow>
   evl q ctx a ar w2 = (Inr (m, rm), w3) \<Longrightarrow>
   normalize_metric m = Inr v \<Longrightarrow>
   process_question search gen evl self db q w =
     (Inr \<lparr>query = q, context_chunks = ctx, answer = a, answer_rationale = ar,
           accuracy_metric = v, rationale_metric = rm\<rparr>, w3)"
  by (simp add: process_question_def RAG_forward_def EvaluatorRAG_forward_def)

lemma process_question_outcomes:
  "(\<exists>e w1. search_table search (vectorstore self) db q ''hybrid'' 3 w = (Inl e, w1))
   \<or> (\<exists>ctx w1 e w2. search_table search (vectorstore self) db q ''hybrid'' 3 w = (Inr ctx, w1)
         \<and> gen q ctx w1 = (Inl e, w2))
   \<or> (\<exists>ctx w1 a ar w2 e w3. search_table search (vectorstore self) db q ''hybrid'' 3 w = (Inr ctx, w1)
         \<and> gen q ctx w1 = (Inr (a, ar), w2) \<and> evl q ctx a ar w2 = (Inl e, w3))
   \<or> (\<exists>ctx w1 a ar w2 m rm w3 e. search_table search (vectorstore self) db q ''hybrid'' 3 w = (Inr ctx, w1)
         \<and> gen q ctx w1 = (Inr (a, ar), w2) \<and> evl q ctx a ar w2 = (Inr (m, rm), w3)
         \<and> normalize_metric m = Inl e)
   \<or> (\<exists>ctx w1 a ar w2 m rm w3 v. search_table search (vectorstore self) db q ''hybrid'' 3 w = (Inr ctx, w1)
         \<and> gen q ctx w1 = (Inr (a, ar), w2) \<and> evl q ctx a ar w2 = (Inr (m, rm), w3)
         \<and> normalize_metric m = Inr v)"
proof (cases "search_table search (vectorstore self) db q ''hybrid'' 3 w")
  case (Pair r1 w1)
  show ?thesis
  proof (cases r1)
    case (Inl e)
    then show ?thesis using Pair by simp
  next
    case (Inr ctx)
    note s = Pair [unfolded Inr]
    show ?thesis
    proof (cases "gen q ctx w1")
      case (Pair r2 w2)
      show ?thesis
      proof (cases r2)
        case (Inl e)
        then show ?thesis using s Pair by simp
      next
        case (Inr aa)
        obtain a ar where aa: "aa = (a, ar)" by (cases aa)
        note g = Pair [unfolded Inr aa]
        show ?thesis
        proof (cases "evl q ctx a ar w2")
          case (Pair r3 w3)
          show ?thesis
          proof (cases r3)
            case (Inl e)
            then show ?thesis using s g Pair by simp
          next
            case (Inr mm)
            obtain m rm where mm: "mm = (m, rm)" by (cases mm)
            note ev = Pair [unfolded Inr mm]
            show ?thesis
            proof (cases "normalize_metric m")
              case (Inl e)
              then show ?thesis using s g ev by simp
            next
              case (Inr v)
              then show ?thesis using s g ev by simp
            qed
          qed
        qed
      qed
    qed
  qed
qed

lemma process_question_result:
  assumes "process_question search gen evl self db q w = (Inr res, wf)"
  shows "\<exists>ctx w1 a ar w2 m rm v.
           search_table search (vectorstore self) db q ''hybrid'' 3 w = (Inr ctx, w1)
           \<and> gen q ctx w1 = (Inr (a, ar), w2)
           \<and> evl q ctx a ar w2 = (Inr (m, rm), wf)
           \<and> normalize_metric m = Inr v
           \<and> res = \<lparr>query = q, context_chunks = ctx, answer = a, answer_rationale = ar,
                      accuracy_metric = v, rationale_metric = rm\<rparr>"
  using process_question_outcomes [of search self db q w gen evl] assms
  by (auto simp: process_question_retrieve_fails process_question_generate_fails
      process_question_evaluate_fails process_question_normalize_fails process_question_succeeds)

lemma search_table_recording_missing:
  "db (tablename vs) = None \<Longrightarrow>
   search_table (recording_search so) vs db q qt k log = (Inl (TableNotFound (tablename vs)), log)"
  by (simp add: search_table_def)

lemma search_table_recording_fails:
  "db (tablename vs) = Some tbl \<Longrightarrow> so q = Inl e \<Longrightarrow>
   search_table (recording_search so) vs db q qt k log = (Inl e, log @ [Search q qt])"
  by (simp add: search_table_def recording_search_def)

lemma search_table_recording_found:
  "db (tablename vs) = Some tbl \<Longrightarrow> so q = Inr ranked \<Longrightarrow>
   search_table (recording_search so) vs db q qt k log =
     (Inr (join context_sep (map row_text (limit k ranked))), log @ [Search q qt])"
  by (simp add: search_table_def recording_search_def)

text \<open>
  Claim C6. For arbitrary collaborators: an error of the retriever, of the generator or of the
  evaluator (of its language-model call or of its normalization) is the outcome of
  \<open>process_question\<close>, unchanged, and a result is returned only when all three stages
  succeeded, in which case it holds the six fields. With recording collaborators the calls
  made are: none when the table is missing; the search alone when the search fails; the
  search, then the generation with the retrieved context, when the generation fails; the
  search, the generation, then the evaluation of the generated answer, each once and in
  this order, when the evaluation fails or succeeds.
\<close>

theorem process_question_atomic:
  "(search_table search (vectorstore self) db q ''hybrid'' 3 w = (Inl e, w1) \<longrightarrow>
      process_question search gen evl self db q w = (Inl e, w1))
   \<and> (search_table search (vectorstore self) db q ''hybrid'' 3 w = (Inr ctx, w1)
        \<and> gen q ctx w1 = (Inl e, w2) \<longrightarrow>
      process_question search gen evl self db q w = (Inl e, w2))
   \<and> (search_table search (vectorstore self) db q ''hybrid'' 3 w = (Inr ctx, w1)
        \<and> gen q ctx w1 = (Inr (a, ar), w2) \<and> evl q ctx a ar w2 = (Inl e, w3) \<longrightarrow>
      process_question search gen evl self db q w = (Inl e, w3))
   \<and> (search_table search (vectorstore self) db q ''hybrid'' 3 w = (Inr ctx, w1)
        \<and> gen q ctx w1 = (Inr (a, ar), w2) \<and> evl q ctx a ar w2 = (Inr (m, rm), w3)
        \<and> normalize_metric m = Inl e \<longrightarrow>
      process_question search gen evl self db q w = (Inl e, w3))
   \<and> (process_question search gen evl self db q w = (Inr res, wf) \<longrightarrow>
      (\<exists>ctx w1 a ar w2 m rm v.
          search_table search (vectorstore self) db q ''hybrid'' 3 w = (Inr ctx, w1)
          \<and> gen q ctx w1 = (Inr (a, ar), w2)
          \<and> evl q ctx a ar w2 = (Inr (m, rm), wf)
          \<and> normalize_metric m = Inr v
          \<and> res = \<lparr>query = q, context_chunks = ctx, answer = a, answer_rationale = ar,
                     accuracy_metric = v, rationale_metric = rm\<rparr>))
   \<and> (db (tablename (vectorstore self)) = None \<longrightarrow>
      process_question (recording_search so) (recording_generate g) (recording_evaluate ev)
        self db q log
      = (Inl (TableNotFound (tablename (vectorstore self))), log))
   \<and> (db (tablename (vectorstore self)) = Some tbl \<and> so q = Inl e \<longrightarrow>
      process_question (recording_search so) (recording_generate g) (recording_evaluate ev)
        self db q log
      = (Inl e, log @ [Search q ''hybrid'']))
   \<and> (db (tablename (vectorstore self)) = Some tbl \<and> so q = Inr ranked
        \<and> c = join context_sep (map row_text (limit 3 ranked))
        \<and> g q c = Inl e \<longrightarrow>
      process_question (recording_search so) (recording_generate g) (recording_evaluate ev)
        self db q log
      = (Inl e, log @ [Search q ''hybrid'', Generate q c]))
   \<and> (db (tablename (vectorstore self)) = Some tbl \<and> so q = Inr ranked
        \<and> c = join context_sep (map row_text (limit 3 ranked))
        \<and> g q c = Inr (a, ar) \<and> ev q c a ar = Inl e \<longrightarrow>
      process_question (recording_search so) (recording_generate g) (recording_evaluate ev)
        self db q log
      = (Inl e, log @ [Search q ''hybrid'', Generate q c, Evaluate q c a ar]))
   \<and> (db (tablename (vectorstore self)) = Some tbl \<and> so q = Inr ranked
        \<and> c = join context_sep (map row_text (limit 3 ranked))
        \<and> g q c = Inr (a, ar) \<and> ev q c a ar = Inr (m, rm) \<and> normalize_metric m = Inl e \<longrightarrow>
      process_question (recording_search so) (recording_generate g) (recording_evaluate ev)
        self db q log
      = (Inl e, log @ [Search q ''hybrid'', Generate q c, Evaluate q c a ar]))
   \<and> (db (tablename (vectorstore self)) = Some tbl \<and> so q = Inr ranked
        \<and> c = join context_sep (map row_text (limit 3 ranked))
        \<and> g q c = Inr (a, ar) \<and> ev q c a ar = Inr (m, rm) \<and> normalize_metric m = Inr v \<longrightarrow>
      process_question (recording_search so) (recording_generate g) (recording_evaluate ev)
        self db q log
      = (Inr \<lparr>query = q, context_chunks = c, answer = a, answer_rationale = ar,
              accuracy_metric = v, rationale_metric = rm\<rparr>,
         log @ [Search q ''hybrid'', Generate q c, Evaluate q c a ar]))"
proof -
  have p1: "(search_table search (vectorstore self) db q ''hybrid'' 3 w = (Inl e, w1) \<longrightarrow>
      process_question search gen evl self db q w = (Inl e, w1))"
    by (simp add: process_question_retrieve_fails)
  have p2: "(search_table search (vectorstore self) db q ''hybrid'' 3 w = (Inr ctx, w1)
        \<and> gen q ctx w1 = (Inl e, w2) \<longrightarrow>
      process_question search gen evl self db q w = (Inl e, w2))"
    by (simp add: process_question_generate_fails)
  have p3: "(search_table search (vectorstore self) db q ''hybrid'' 3 w = (Inr ctx, w1)
        \<and> gen q ctx w1 = (Inr (a, ar), w2) \<and> evl q ctx a ar w2 = (Inl e, w3) \<longrightarrow>
      process_question search gen evl self db q w = (Inl e, w3))"
    by (simp add: process_question_evaluate_fails)
  have p3n: "(search_table search (vectorstore self) db q ''hybrid'' 3 w = (Inr ctx, w1)
        \<and> gen q ctx w1 = (Inr (a, ar), w2) \<and> evl q ctx a ar w2 = (Inr (m, rm), w3)
        \<and> normalize_metric m = Inl e \<longrightarrow>
      process_question search gen evl self db q w = (Inl e, w3))"
    by (simp add: process_question_normalize_fails)
  have p4: "(process_question search gen evl self db q w = (Inr res, wf) \<longrightarrow>
      (\<exists>ctx w1 a ar w2 m rm v.
          search_table search (vectorstore self) db q ''hybrid'' 3 w = (Inr ctx, w1)
          \<and> gen q ctx w1 = (Inr (a, ar), w2)
          \<and> evl q ctx a ar w2 = (Inr (m, rm), wf)
          \<and> normalize_metric m = Inr v
          \<and> res = \<lparr>query = q, context_chunks = ctx, answer = a, answer_rationale = ar,
                     accuracy_metric = v, rationale_metric = rm\<rparr>))"
    by (rule impI) (rule process_question_result)
  have r0: "(db (tablename (vectorstore self)) = None \<longrightarrow>
      process_question (recording_search so) (recording_generate g) (recording_evaluate ev)
        self db q log
      = (Inl (TableNotFound (tablename (vectorstore self))), log))"
    by (simp add: process_question_retrieve_fails [OF search_table_recording_missing])
  have r1: "(db (tablename (vectorstore self)) = Some tbl \<and> so q = Inl e \<longrightarrow>
      process_question (recording_search so) (recording_generate g) (recording_evaluate ev)
        self db q log
      = (Inl e, log @ [Search q ''hybrid'']))"
    by (simp add: process_question_retrieve_fails [OF search_table_recording_fails])
  have r2: "(db (tablename (vectorstore self)) = Some tbl \<and> so q = Inr ranked
        \<and> c = join context_sep (map row_text (limit 3 ranked))
        \<and> g q c = Inl e \<longrightarrow>
      process_question (recording_search so) (recording_generate g) (recording_evaluate ev)
        self db q log
      = (Inl e, log @ [Search q ''hybrid'', Generate q c]))"
    by (clarsimp simp: process_question_generate_fails [OF search_table_recording_found]
        recording_generate_def)
  have r3: "(db (tablename (vectorstore self)) = Some tbl \<and> so q = Inr ranked
        \<and> c = join context_sep (map row_text (limit 3 ranked))
        \<and> g q c = Inr (a, ar) \<and> ev q c a ar = Inl e \<longrightarrow>
      process_question (recording_search so) (recording_generate g) (recording_evaluate ev)
        self db q log
      = (Inl e, log @ [Search q ''hybrid'', Generate q c, Evaluate q c a ar]))"
    by (clarsimp simp: process_question_evaluate_fails [OF search_table_recording_found]
        recording_generate_def recording_evaluate_def)
  have r3n: "(db (tablename (vectorstore self)) = Some tbl \<and> so q = Inr ranked
        \<and> c = join context_sep (map row_text (limit 3 ranked))
        \<and> g q c = Inr (a, ar) \<and> ev q c a ar = Inr (m, rm) \<and> normalize_metric m = Inl e \<longrightarrow>
      process_question (recording_search so) (recording_generate g) (recording_evaluate ev)
        self db q log
      = (Inl e, log @ [Search q ''hybrid'', Generate q c, Evaluate q c a ar]))"
    by (clarsimp simp: process_question_normalize_fails [OF search_table_recording_found]
        recording_generate_def recording_evaluate_def)
  have r4: "(db (tablename (vectorstore self)) = Some tbl \<and> so q = Inr ranked
        \<and> c = join context_sep (map row_text (limit 3 ranked))
        \<and> g q c = Inr (a, ar) \<and> ev q c a ar = Inr (m, rm) \<and> normalize_metric m = Inr v \<longrightarrow>
      process_question (recording_search so) (recording_generate g) (recording_evaluate ev)
        self db q log
      = (Inr \<lparr>query = q, context_chunks = c, answer = a, answer_rationale = ar,
              accuracy_metric = v, rationale_metric = rm\<rparr>,
         log @ [Search q ''hybrid'', Generate q c, Evaluate q c a ar]))"
    by (clarsimp simp: process_question_succeeds [OF search_table_recording_found]
        recording_generate_def recording_evaluate_def)
  show ?thesis
    using p1 p2 p3 p3n p4 r0 r1 r2 r3 r3n r4 by (intro conjI)
qed

theorem process_question_atomic_witness:
  "process_question
     (recording_search (\<lambda>q. Inr [\<lparr>row_text = ''open 9 to 6'', row_vector = 1 :: nat\<rparr>]))
     (recording_generate (\<lambda>q c. Inr (''Yes'', ''Tuesday is a weekday'')))
     (recording_evaluate (\<lambda>q c a r. Inr (PyStr ''9'', ''supported'')))
     \<lparr>vectorstore = \<lparr>context_information = ''open 9 to 6'', db_path = ''./db'',
                          tablename = ''context'', chunk_size = 50\<rparr>\<rparr>
     [''context'' \<mapsto> \<lparr>rows = [\<lparr>row_text = ''open 9 to 6'', row_vector = 1\<rparr>],
                    fts_index = True\<rparr>]
     ''Is it open?'' []
   = (Inr \<lparr>query = ''Is it open?'', context_chunks = ''open 9 to 6'', answer = ''Yes'',
           answer_rationale = ''Tuesday is a weekday'', accuracy_metric = PyInt 9,
           rationale_metric = ''supported''\<rparr>,
      [Search ''Is it open?'' ''hybrid'', Generate ''Is it open?'' ''open 9 to 6'',
       Evaluate ''Is it open?'' ''open 9 to 6'' ''Yes'' ''Tuesday is a weekday''])
   \<and> process_question
     (recording_search (\<lambda>q. Inr [\<lparr>row_text = ''open 9 to 6'', row_vector = 1 :: nat\<rparr>]))
     (recording_generate (\<lambda>q c. Inr (''Yes'', ''Tuesday is a weekday'')))
     (recording_evaluate (\<lambda>q c a r. Inl (CollaboratorError ''timeout'')))
     \<lparr>vectorstore = \<lparr>context_information = ''open 9 to 6'', db_path = ''./db'',
                          tablename = ''context'', chunk_size = 50\<rparr>\<rparr>
     [''context'' \<mapsto> \<lparr>rows = [\<lparr>row_text = ''open 9 to 6'', row_vector = 1\<rparr>],
                    fts_index = True\<rparr>]
     ''Is it open?'' []
   = (Inl (CollaboratorError ''timeout''),
      [Search ''Is it open?'' ''hybrid'', Generate ''Is it open?'' ''open 9 to 6'',
       Evaluate ''Is it open?'' ''open 9 to 6'' ''Yes'' ''Tuesday is a weekday''])
   \<and> process_question
     (recording_search (\<lambda>q. Inr [\<lparr>row_text = ''open 9 to 6'', row_vector = 1 :: nat\<rparr>]))
     (recording_generate (\<lambda>q c. Inl (CollaboratorError ''malformed output'')))
     (recording_evaluate (\<lambda>q c a r. Inr (PyStr ''9'', ''supported'')))
     \<lparr>vectorstore = \<lparr>context_information = ''open 9 to 6'', db_path = ''./db'',
                          tablename = ''context'', chunk_size = 50\<rparr>\<rparr>
     [''context'' \<mapsto> \<lparr>rows = [\<lparr>row_text = ''open 9 to 6'', row_vector = 1\<rparr>],
                    fts_index = True\<rparr>]
     ''Is it open?'' []
   = (Inl (CollaboratorError ''malformed output''),
      [Search ''Is it open?'' ''hybrid'', Generate ''Is it open?'' ''open 9 to 6''])
   \<and> process_question
     (recording_search (\<lambda>q. Inr [\<lparr>row_text = ''open 9 to 6'', row_vector = 1 :: nat\<rparr>]))
     (recording_generate (\<lambda>q c. Inr (''Yes'', ''Tuesday is a weekday'')))
     (recording_evaluate (\<lambda>q c a r. Inr (PyStr (replicate 4301 CHR ''9''), ''supported'')))
     \<lparr>vectorstore = \<lparr>context_information = ''open 9 to 6'', db_path = ''./db'',
                          tablename = ''context'', chunk_size = 50\<rparr>\<rparr>
     [''context'' \<mapsto> \<lparr>rows = [\<lparr>row_text = ''open 9 to 6'', row_vector = 1\<rparr>],
                    fts_index = True\<rparr>]
     ''Is it open?'' []
   = (Inl (ValueError ''Exceeds the limit (4300 digits) for integer string conversion''),
      [Search ''Is it open?'' ''hybrid'', Generate ''Is it open?'' ''open 9 to 6'',
       Evaluate ''Is it open?'' ''open 9 to 6'' ''Yes'' ''Tuesday is a weekday''])"
proof -
  let ?p = "\<lparr>row_text = ''open 9 to 6'', row_vector = 1 :: nat\<rparr>"
  let ?tbl = "\<lparr>rows = [?p], fts_index = True\<rparr>"
  let ?self = "\<lparr>vectorstore = \<lparr>context_information = ''open 9 to 6'', db_path = ''./db'',
                          tablename = ''context'', chunk_size = 50\<rparr>\<rparr>"
  let ?so = "\<lambda>q :: string. Inr [?p] :: error + nat row list"
  let ?g = "\<lambda>(q :: string) (c :: string). Inr (''Yes'', ''Tuesday is a weekday'') :: error + string \<times> string"
  let ?gf = "\<lambda>(q :: string) (c :: string). Inl (CollaboratorError ''malformed output'') :: error + string \<times> string"
  let ?ev = "\<lambda>(q :: string) (c :: string) (a :: string) (r :: string).
               Inr (PyStr ''9'', ''supported'') :: error + pyval \<times> string"
  let ?evf = "\<lambda>(q :: string) (c :: string) (a :: string) (r :: string).
               Inl (CollaboratorError ''timeout'') :: error + pyval \<times> string"
  let ?evl = "\<lambda>(q :: string) (c :: string) (a :: string) (r :: string).
               Inr (PyStr (replicate 4301 CHR ''9''), ''supported'') :: error + pyval \<times> string"
  have c: "join context_sep (map row_text (limit 3 [?p])) = ''open 9 to 6''"
    by (simp add: limit_def)
  have n: "normalize_metric (PyStr ''9'') = Inr (PyInt 9)"
    by (simp add: re_search_digits_def is_digit_def py_int_def int_max_str_digits_def
        int_of_digits_def digit_val_def)
  have t: "[''context'' \<mapsto> ?tbl] (tablename (vectorstore ?self)) = Some ?tbl"
    by simp
  have ok: "process_question (recording_search ?so) (recording_generate ?g) (recording_evaluate ?ev)
              ?self [''context'' \<mapsto> ?tbl] ''Is it open?'' []
   = (Inr \<lparr>query = ''Is it open?'', context_chunks = ''open 9 to 6'', answer = ''Yes'',
           answer_rationale = ''Tuesday is a weekday'', accuracy_metric = PyInt 9,
           rationale_metric = ''supported''\<rparr>,
      [Search ''Is it open?'' ''hybrid'', Generate ''Is it open?'' ''open 9 to 6'',
       Evaluate ''Is it open?'' ''open 9 to 6'' ''Yes'' ''Tuesday is a weekday''])"
    using process_question_atomic
            [where so = ?so and g = ?g and ev = ?ev and self = ?self
               and db = "[''context'' \<mapsto> ?tbl]" and q = "''Is it open?''" and log = "[]"
               and tbl = ?tbl and ranked = "[?p]" and c = "''open 9 to 6''" and a = "''Yes''"
               and ar = "''Tuesday is a weekday''" and m = "PyStr ''9''" and rm = "''supported''"
               and v = "PyInt 9",
             THEN conjunct2, THEN conjunct2, THEN conjunct2, THEN conjunct2, THEN conjunct2, THEN conjunct2, THEN conjunct2, THEN conjunct2, THEN conjunct2, THEN conjunct2]
      t c n
    by simp
  have ef: "process_question (recording_search ?so) (recording_generate ?g) (recording_evaluate ?evf)
              ?self [''context'' \<mapsto> ?tbl] ''Is it open?'' []
   = (Inl (CollaboratorError ''timeout''),
      [Search ''Is it open?'' ''hybrid'', Generate ''Is it open?'' ''open 9 to 6'',
       Evaluate ''Is it open?'' ''open 9 to 6'' ''Yes'' ''Tuesday is a weekday''])"
    using process_question_atomic
            [where so = ?so and g = ?g and ev = ?evf and self = ?self
               and db = "[''context'' \<mapsto> ?tbl]" and q = "''Is it open?''" and log = "[]"
               and tbl = ?tbl and ranked = "[?p]" and c = "''open 9 to 6''" and a = "''Yes''"
               and ar = "''Tuesday is a weekday''" and e = "CollaboratorError ''timeout''",
             THEN conjunct2, THEN conjunct2, THEN conjunct2, THEN conjunct2, THEN conjunct2, THEN conjunct2, THEN conjunct2, THEN conjunct2, THEN conjunct1]
      t c
    by simp
  have gf: "process_question (recording_search ?so) (recording_generate ?gf) (recording_evaluate ?ev)
              ?self [''context'' \<mapsto> ?tbl] ''Is it open?'' []
   = (Inl (CollaboratorError ''malformed output''),
      [Search ''Is it open?'' ''hybrid'', Generate ''Is it open?'' ''open 9 to 6''])"
    using process_question_atomic
            [where so = ?so and g = ?gf and ev = ?ev and self = ?self
               and db = "[''context'' \<mapsto> ?tbl]" and q = "''Is it open?''" and log = "[]"
               and tbl = ?tbl and ranked = "[?p]" and c = "''open 9 to 6''"
               and e = "CollaboratorError ''malformed output''",
             THEN conjunct2, THEN conjunct2, THEN conjunct2, THEN conjunct2, THEN conjunct2, THEN conjunct2, THEN conjunct2, THEN conjunct1]
      t c
    by simp
  have nf: "process_question (recording_search ?so) (recording_generate ?g) (recording_evaluate ?evl)
              ?self [''context'' \<mapsto> ?tbl] ''Is it open?'' []
   = (Inl digit_limit_exceeded,
      [Search ''Is it open?'' ''hybrid'', Generate ''Is it open?'' ''open 9 to 6'',
       Evaluate ''Is it open?'' ''open 9 to 6'' ''Yes'' ''Tuesday is a weekday''])"
    using process_question_atomic
            [where so = ?so and g = ?g and ev = ?evl and self = ?self
               and db = "[''context'' \<mapsto> ?tbl]" and q = "''Is it open?''" and log = "[]"
               and tbl = ?tbl and ranked = "[?p]" and c = "''open 9 to 6''" and a = "''Yes''"
               and ar = "''Tuesday is a weekday''" and m = "PyStr (replicate 4301 CHR ''9'')"
               and rm = "''supported''" and e = digit_limit_exceeded,
             THEN conjunct2, THEN conjunct2, THEN conjunct2, THEN conjunct2, THEN conjunct2, THEN conjunct2, THEN conjunct2, THEN conjunct2, THEN conjunct2, THEN conjunct1]
      t c normalize_metric_nines
    by simp
  show ?thesis using ok ef gf nf by (simp add: digit_limit_exceeded_def)
qed

end
